theory Spec2Isabelle
  imports Complex_Main
begin

section \<open>Python and NumPy primitives used by graph_telemetry_service.py\<close>

text \<open>
  Python floats are modelled as exact reals: products, quotients and comparisons are the
  mathematical ones, without binary rounding.  Python ints are \<open>int\<close>.  An exception
  is a value of \<open>py_error\<close>.
\<close>

datatype py_error = ValueError | ZeroDivisionError

definition py_truediv :: "real \<Rightarrow> real \<Rightarrow> py_error + real" where
  \<comment> \<open>\<^verbatim>\<open>a / b\<close>: raises ZeroDivisionError on a zero divisor.\<close>
  "py_truediv a b = (if b = 0 then Inl ZeroDivisionError else Inr (a / b))"

definition py_int :: "real \<Rightarrow> int" where
  \<comment> \<open>\<^verbatim>\<open>int(x)\<close> on a float: truncation toward zero.\<close>
  "py_int x = (if 0 \<le> x then \<lfloor>x\<rfloor> else \<lceil>x\<rceil>)"

definition round_half_even :: "real \<Rightarrow> int" where
  "round_half_even r =
     (let f = \<lfloor>r\<rfloor>; d = r - of_int f
      in if d < 1 / 2 then f
         else if 1 / 2 < d then f + 1
         else if even f then f else f + 1)"

definition py_round1 :: "real \<Rightarrow> real" where
  \<comment> \<open>\<^verbatim>\<open>round(x, 1)\<close>: one decimal place, ties to the even neighbour.\<close>
  "py_round1 x = of_int (round_half_even (x * 10)) / 10"

definition sorted_reverse :: "('a \<Rightarrow> int) \<Rightarrow> 'a list \<Rightarrow> 'a list" where
  \<comment> \<open>\<^verbatim>\<open>sorted(xs, key=f, reverse=True)\<close>: descending, equal keys keep their order.\<close>
  "sorted_reverse f xs = rev (sort_key f (rev xs))"

fun max_by :: "('a \<Rightarrow> 'b::linorder) \<Rightarrow> 'a \<Rightarrow> 'a list \<Rightarrow> 'a" where
  "max_by f best [] = best"
| "max_by f best (x # xs) = (if f best < f x then max_by f x xs else max_by f best xs)"

definition py_max_key :: "('a \<Rightarrow> 'b::linorder) \<Rightarrow> 'a list \<Rightarrow> 'a \<Rightarrow> 'a" where
  \<comment> \<open>\<^verbatim>\<open>max(xs, key=f, default=d)\<close>: the first element whose key is maximal.\<close>
  "py_max_key f xs d = (case xs of [] \<Rightarrow> d | x # r \<Rightarrow> max_by f x r)"

definition np_argmax :: "real list \<Rightarrow> nat" where
  \<comment> \<open>index of the first maximal element (the list is not empty where it is called)\<close>
  "np_argmax xs = (case xs of [] \<Rightarrow> 0
     | x # r \<Rightarrow> length (takeWhile (\<lambda>y. y \<noteq> fold max r x) xs))"

definition np_median :: "real list \<Rightarrow> real" where
  \<comment> \<open>NumPy gives nan on an empty list; the callers only pass non-empty lists.\<close>
  "np_median xs =
     (let s = sort xs; n = length s
      in if n = 0 then 0
         else if odd n then s ! (n div 2)
         else (s ! (n div 2 - 1) + s ! (n div 2)) / 2)"

definition np_diff :: "int list \<Rightarrow> int list" where
  "np_diff xs = map (\<lambda>(a, b). b - a) (zip xs (tl xs))"

definition np_mean :: "real list \<Rightarrow> real" where
  "np_mean xs = sum_list xs / real (length xs)"

definition np_std :: "real list \<Rightarrow> real" where
  \<comment> \<open>population standard deviation\<close>
  "np_std xs = sqrt (np_mean (map (\<lambda>x. (x - np_mean xs)\<^sup>2) xs))"

definition slice_index :: "int \<Rightarrow> nat \<Rightarrow> nat" where
  \<comment> \<open>a slice bound: negative bounds count from the end, all bounds are clipped\<close>
  "slice_index i n = (if i < 0 then nat (max 0 (i + int n)) else min (nat i) n)"

definition py_slice :: "int \<Rightarrow> int \<Rightarrow> 'a list \<Rightarrow> 'a list" where
  \<comment> \<open>\<^verbatim>\<open>xs[lo:hi]\<close>\<close>
  "py_slice lo hi xs =
     (let a = slice_index lo (length xs); b = slice_index hi (length xs)
      in take (b - a) (drop a xs))"


section \<open>Images, contours and the OpenCV / Gemini collaborators\<close>

text \<open>
  An image is its rows of BGR pixels.  What OpenCV computes from pixels (colour masks,
  morphology, contour tracing, Canny and Hough) is not part of the repository: a contour
  carries the measurements \<^verbatim>\<open>cv2.boundingRect\<close> and \<^verbatim>\<open>cv2.contourArea\<close> give for
  it, and the record \<open>collaborators\<close> holds, per image, the contour lists and line
  lists the OpenCV calls of each function yield, together with the semantic label source
  (\<^verbatim>\<open>SinglePromptGraphExtractor.extract_graph_data\<close>: the canned response without
  a credential, the parsed Gemini answer otherwise).  The files that can be decoded into
  an image are a map from paths to images.

  \<^item> \<open>grid_horizontal img s\<close> is the list \<^verbatim>\<open>'horizontal'\<close> that
    \<^verbatim>\<open>_find_graph_grid_internal\<close> returns for the image under strategy \<open>s\<close>;
  \<^item> \<open>contours_ios\<close>, \<open>contours_dark\<close> and \<open>contours_light\<close> are the lists
    \<^verbatim>\<open>cv2.findContours\<close> returns in the three detector variants;
  \<^item> a label object holds the day name and the truth value of its \<^verbatim>\<open>has_bar\<close> entry.
\<close>

type_synonym pixel = "nat \<times> nat \<times> nat"
type_synonym image = "pixel list list"

definition shape0 :: "image \<Rightarrow> int" where
  "shape0 img = int (length img)"

definition shape1 :: "image \<Rightarrow> int" where
  "shape1 img = (case img of [] \<Rightarrow> 0 | row # _ \<Rightarrow> int (length row))"

definition crop :: "image \<Rightarrow> int \<Rightarrow> int \<Rightarrow> int \<Rightarrow> int \<Rightarrow> image" where
  \<comment> \<open>\<^verbatim>\<open>img[top:bottom, left:right]\<close>\<close>
  "crop img t b l r = map (py_slice l r) (py_slice t b img)"

record contour =
  bounding_rect :: "int \<times> int \<times> int \<times> int"
  contour_area :: real
  contour_points :: "(int \<times> int) list"

record label_obj =
  label :: string
  has_bar :: bool

record semantic_data =
  x_axis :: "label_obj list"
  y_axis_top_value :: string

record strategy =
  strategy_name :: string
  canny :: "int \<times> int"
  morph :: bool
  hough :: "(int \<times> int) option"

record collaborators =
  grid_horizontal :: "image \<Rightarrow> strategy \<Rightarrow> int list"
  contours_ios :: "image \<Rightarrow> contour list"
  contours_dark :: "image \<Rightarrow> contour list"
  contours_light :: "image \<Rightarrow> contour list"
  extract_graph_data :: "image \<Rightarrow> semantic_data"

type_synonym files = "string \<Rightarrow> image option"

definition load_image :: "files \<Rightarrow> string \<Rightarrow> image option" where
  "load_image fs path = fs path"


section \<open>Bar detector\<close>

record bar_position =
  center_x :: int
  center_y :: int
  y_top :: int
  bbox :: "int \<times> int \<times> int \<times> int"
  bar_type :: string

record bar_item = bar_position +
  cnt :: contour

record dark_item =
  item_cnt :: contour
  bottom :: int
  width :: int
  item_bbox :: "int \<times> int \<times> int \<times> int"
  item_area :: real
  reason :: "string option"

record dome =
  dome_cnt :: contour
  dome_center_x :: int
  top_y :: int
  dome_bbox :: "int \<times> int \<times> int \<times> int"
  dome_area :: real
  aspect :: real

definition draw_final_bars :: "bar_item list \<Rightarrow> bar_item list" where
  \<comment> \<open>\<^verbatim>\<open>_draw_final_bars\<close> sorts the list it is given in place, by \<^verbatim>\<open>center_x\<close>;
      the picture it paints is not modelled.\<close>
  "draw_final_bars bar_positions = sort_key center_x bar_positions"

definition process_contours_to_positions ::
  "contour list \<Rightarrow> string \<Rightarrow> dark_item list \<Rightarrow> bar_item list \<times> contour set" where
  "process_contours_to_positions final_contours detection_type reclaimed_contours_data =
     (let reclaimed_contours_bytes = set (map item_cnt reclaimed_contours_data);
          bar_positions =
            map (\<lambda>contour. case bounding_rect contour of (x, y, w, h) \<Rightarrow>
                  \<lparr>center_x = py_int (of_int x + of_int w / 2),
                   center_y = py_int (of_int y + of_int h / 2),
                   y_top = y, bbox = (x, y, w, h), bar_type = detection_type,
                   cnt = contour\<rparr>) final_contours
      in (bar_positions, reclaimed_contours_bytes))"

definition detect_ios_bars :: "collaborators \<Rightarrow> image \<Rightarrow> bar_item list" where
  "detect_ios_bars cv img =
     (let valid_ios = filter (\<lambda>c. 300 < contour_area c) (contours_ios cv img)
      in if 3 \<le> length valid_ios
         then fst (process_contours_to_positions valid_ios ''iOS'' [])
         else [])"

definition drop_frame :: "int \<Rightarrow> contour list \<Rightarrow> contour list" where
  \<comment> \<open>the frame/background filter, written out twice in the source (dark and light)\<close>
  "drop_frame total_area contours =
     (let areas = map contour_area contours;
          max_area = (case areas of [] \<Rightarrow> 0 | a # r \<Rightarrow> fold max r a);
          max_area_contour_index = (if contours \<noteq> [] then int (np_argmax areas) else - 1)
      in if max_area_contour_index \<noteq> - 1 \<and> 0.8 < max_area / of_int total_area
         then map snd (filter (\<lambda>(i, c). int i \<noteq> max_area_contour_index)
                         (enumerate 0 contours))
         else contours)"

definition suspect_reason :: "int \<Rightarrow> contour \<Rightarrow> string option" where
  "suspect_reason img_width c =
     (case bounding_rect c of (x, y, w, h) \<Rightarrow>
        if h < 5 \<or> w < 5 \<or> real_of_int img_width * 0.9 < of_int w then Some ''Size''
        else if real_of_int h * 2.5 < of_int w then Some ''Ratio''
        else None)"

definition dark_item_of :: "int \<Rightarrow> contour \<Rightarrow> dark_item" where
  "dark_item_of img_width c =
     (case bounding_rect c of (x, y, w, h) \<Rightarrow>
        \<lparr>item_cnt = c, bottom = y + h, width = w, item_bbox = (x, y, w, h),
         item_area = contour_area c, reason = suspect_reason img_width c\<rparr>)"

definition dark_items :: "collaborators \<Rightarrow> image \<Rightarrow> dark_item list" where
  "dark_items cv img =
     (let img_width = shape1 img;
          total_area = shape0 img * img_width;
          filtered_contours = drop_frame total_area (contours_dark cv img)
      in map (dark_item_of img_width) filtered_contours)"

definition dark_candidates :: "collaborators \<Rightarrow> image \<Rightarrow> dark_item list" where
  "dark_candidates cv img = filter (\<lambda>item. reason item = None) (dark_items cv img)"

definition dark_suspect_contours :: "collaborators \<Rightarrow> image \<Rightarrow> dark_item list" where
  "dark_suspect_contours cv img = filter (\<lambda>item. reason item \<noteq> None) (dark_items cv img)"

fun group_rows :: "dark_item list \<Rightarrow> dark_item list \<Rightarrow> dark_item list list" where
  "group_rows current_row [] = [current_row]"
| "group_rows current_row (c # cs) =
     (if bottom c - bottom (last current_row) < 30
      then group_rows (current_row @ [c]) cs
      else current_row # group_rows [c] cs)"

definition dark_best_row :: "dark_item list \<Rightarrow> dark_item list" where
  \<comment> \<open>called with at least three candidates\<close>
  "dark_best_row best_candidates =
     (let candidates = sort_key bottom best_candidates;
          rows = (case candidates of [] \<Rightarrow> [] | c # cs \<Rightarrow> group_rows [c] cs)
      in py_max_key (\<lambda>r. sum_list (map width r)) rows [])"

definition width_ok :: "real \<Rightarrow> dark_item \<Rightarrow> bool" where
  "width_ok median_width item =
     (\<bar>of_int (width item) - median_width\<bar> \<le> max 12 (median_width * 0.50))"

definition baseline_ok :: "real \<Rightarrow> dark_item \<Rightarrow> bool" where
  "baseline_ok baseline_y item = (\<bar>of_int (bottom item) - baseline_y\<bar> \<le> 30)"

definition median_width_of :: "dark_item list \<Rightarrow> real" where
  "median_width_of best_row = np_median (map (\<lambda>c. of_int (width c)) best_row)"

definition baseline_y_of :: "dark_item list \<Rightarrow> real" where
  "baseline_y_of best_row = np_median (map (\<lambda>c. of_int (bottom c)) best_row)"

definition reclaimed_contours_data :: "dark_item list \<Rightarrow> dark_item list \<Rightarrow> dark_item list" where
  \<comment> \<open>step 6, the reclaim pass over the suspects\<close>
  "reclaimed_contours_data best_row suspect_contours =
     filter (\<lambda>item. width_ok (median_width_of best_row) item
                   \<and> baseline_ok (baseline_y_of best_row) item) suspect_contours"

definition dark_final_contours :: "dark_item list \<Rightarrow> dark_item list \<Rightarrow> contour list" where
  "dark_final_contours best_row suspect_contours =
     map item_cnt (filter (width_ok (median_width_of best_row)) best_row)
     @ map item_cnt (reclaimed_contours_data best_row suspect_contours)"

definition detect_android_dark_bars ::
  "collaborators \<Rightarrow> image \<Rightarrow> bar_item list \<times> contour set" where
  "detect_android_dark_bars cv img =
     (let candidates = dark_candidates cv img;
          suspect_contours = dark_suspect_contours cv img;
          best_candidates = (if 3 \<le> length candidates then candidates else [])
      in if length best_candidates < 3 then ([], {})
         else let best_row = dark_best_row best_candidates
              in if best_row = [] then ([], {})
                 else process_contours_to_positions
                        (dark_final_contours best_row suspect_contours) ''Android''
                        (reclaimed_contours_data best_row suspect_contours))"

definition is_dome :: "int \<Rightarrow> int \<Rightarrow> contour \<Rightarrow> bool" where
  \<comment> \<open>a contour none of the five \<^verbatim>\<open>continue\<close> tests rejects\<close>
  "is_dome img_height img_width c =
     (case bounding_rect c of (x, y, w, h) \<Rightarrow>
        let area = contour_area c;
            aspect_ratio = (if 0 < h then real_of_int w / of_int h else 0);
            relative_y = real_of_int y / of_int img_height
        in \<not> area < 100
           \<and> \<not> (aspect_ratio < 2.0 \<or> 10.0 < aspect_ratio)
           \<and> \<not> h < 5
           \<and> \<not> 0.90 < relative_y
           \<and> \<not> (w < 10 \<or> real_of_int img_width * 0.3 < of_int w))"

definition dome_of :: "contour \<Rightarrow> dome" where
  "dome_of c =
     (case bounding_rect c of (x, y, w, h) \<Rightarrow>
        \<lparr>dome_cnt = c, dome_center_x = x + w div 2, top_y = y, dome_bbox = (x, y, w, h),
         dome_area = contour_area c,
         aspect = (if 0 < h then real_of_int w / of_int h else 0)\<rparr>)"

definition detect_android_light_bars :: "collaborators \<Rightarrow> image \<Rightarrow> bar_item list" where
  "detect_android_light_bars cv img =
     (let img_height = shape0 img;
          img_width = shape1 img;
          total_area = img_height * img_width;
          filtered_contours = drop_frame total_area (contours_light cv img);
          dome_candidates = map dome_of (filter (is_dome img_height img_width) filtered_contours)
      in if 3 \<le> length dome_candidates
         then map (\<lambda>d. \<lparr>center_x = dome_center_x d, center_y = top_y d, y_top = top_y d,
                         bbox = dome_bbox d, bar_type = ''Android-Light'', cnt = dome_cnt d\<rparr>)
                (sort_key dome_center_x dome_candidates)
         else [])"

text \<open>
  \<^verbatim>\<open>detect_bars_positions\<close> returns the cleaned positions and the debug picture.  The
  picture is represented by what determines it besides the image: the detection type
  handed to \<^verbatim>\<open>_draw_final_bars\<close>.  The field \<open>invoked\<close> lists the variant functions
  in the order they were called.
\<close>

record detection =
  cleaned_final_positions :: "bar_position list"
  detection_type :: string
  invoked :: "string list"

definition detect_bars_positions :: "collaborators \<Rightarrow> image \<Rightarrow> detection" where
  "detect_bars_positions cv img =
     (let bar_positions_ios = detect_ios_bars cv img;
          (final_positions, dtype, calls) =
            (if bar_positions_ios \<noteq> []
             then (bar_positions_ios, ''iOS'', [''detect_ios_bars''])
             else let bar_positions_android_dark = fst (detect_android_dark_bars cv img)
                  in if 3 \<le> length bar_positions_android_dark
                     then (bar_positions_android_dark, ''Android'',
                           [''detect_ios_bars'', ''detect_android_dark_bars''])
                     else let bar_positions_android_light = detect_android_light_bars cv img
                          in if bar_positions_android_light \<noteq> []
                             then (bar_positions_android_light, ''Android-Light'',
                                   [''detect_ios_bars'', ''detect_android_dark_bars'',
                                    ''detect_android_light_bars''])
                             else ([], ''None'',
                                   [''detect_ios_bars'', ''detect_android_dark_bars'',
                                    ''detect_android_light_bars'']))
      in \<lparr>cleaned_final_positions = map bar_position.truncate (draw_final_bars final_positions),
          detection_type = dtype, invoked = calls\<rparr>)"


section \<open>Grid detector\<close>

record scored_cluster =
  cluster :: "int list"
  score :: real
  pass_name :: string

record grid_info =
  grid_y_top :: "int option"
  grid_y_bottom :: "int option"
  lines :: "int list"
  avg_delta :: real

definition strategies :: "int \<Rightarrow> strategy list" where
  "strategies image_width =
     [\<lparr>strategy_name = ''Pass 1: Standard'', canny = (50, 150), morph = False, hough = None\<rparr>,
      \<lparr>strategy_name = ''Pass 2: Sensitive'', canny = (20, 60), morph = False, hough = None\<rparr>,
      \<lparr>strategy_name = ''Pass 3: Dark Mode'', canny = (5, 25), morph = False, hough = None\<rparr>,
      \<lparr>strategy_name = ''Pass 4: Android/Dotted'', canny = (10, 30), morph = True,
       hough = Some (image_width div 20, 60)\<rparr>]"

fun extend_cluster :: "int \<Rightarrow> int \<Rightarrow> int list \<Rightarrow> int list" where
  \<comment> \<open>the loop over \<^verbatim>\<open>k\<close>: the lines appended after the first two\<close>
  "extend_cluster delta current_line [] = []"
| "extend_cluster delta current_line (next_line_candidate # rest) =
     (let expected_line = current_line + delta
      in if \<bar>next_line_candidate - expected_line\<bar> < 6
         then next_line_candidate # extend_cluster delta next_line_candidate rest
         else if expected_line + 6 < next_line_candidate then []
         else extend_cluster delta current_line rest)"

definition location_multiplier :: "real \<Rightarrow> real" where
  "location_multiplier cluster_bottom_relative =
     (if 0.75 < cluster_bottom_relative then 0.1
      else if 0.65 < cluster_bottom_relative then 0.8
      else 1.2)"

definition base_score :: "int list \<Rightarrow> real" where
  "base_score current_cluster =
     (let actual_deltas = np_diff current_cluster;
          std_dev = np_std (map of_int actual_deltas)
      in (real (length current_cluster) ^ 3 * 100) / (std_dev + 0.5))"

definition final_score :: "int \<Rightarrow> int list \<Rightarrow> real" where
  "final_score image_height current_cluster =
     (let cluster_bottom_relative = real_of_int (last current_cluster) / of_int image_height
      in base_score current_cluster * location_multiplier cluster_bottom_relative)"

definition pass_clusters :: "int \<Rightarrow> int list \<Rightarrow> int list list" where
  \<comment> \<open>the clusters the loops over \<^verbatim>\<open>i\<close> and \<^verbatim>\<open>j\<close> score, in the order they reach them\<close>
  "pass_clusters image_height lines_sorted =
     concat (map (\<lambda>i.
       let line_start = lines_sorted ! i
       in if \<not> (real_of_int image_height * 0.10 < of_int line_start
                 \<and> real_of_int line_start < of_int image_height * 0.98) then []
          else concat (map (\<lambda>j.
            let line_next = lines_sorted ! j;
                delta = line_next - line_start
            in if \<not> (25 < delta \<and> delta < 300) then []
               else let current_cluster =
                          [line_start, line_next]
                          @ extend_cluster delta line_next (drop (j + 1) lines_sorted)
                    in if 3 \<le> length current_cluster
                       then (if 9 < length current_cluster then [] else [current_cluster])
                       else [])
            [i + 1 ..< length lines_sorted]))
       [0 ..< length lines_sorted])"

fun best_cluster :: "int \<Rightarrow> string \<Rightarrow> scored_cluster option \<Rightarrow> real \<Rightarrow> int list list
                     \<Rightarrow> scored_cluster option" where
  "best_cluster image_height name best_cluster_this_pass best_score_this_pass [] =
     best_cluster_this_pass"
| "best_cluster image_height name best_cluster_this_pass best_score_this_pass (c # cs) =
     (if best_score_this_pass < final_score image_height c
      then best_cluster image_height name
             (Some \<lparr>cluster = c, score = final_score image_height c, pass_name = name\<rparr>)
             (final_score image_height c) cs
      else best_cluster image_height name best_cluster_this_pass best_score_this_pass cs)"

definition pass_candidate :: "collaborators \<Rightarrow> image \<Rightarrow> strategy \<Rightarrow> scored_cluster option" where
  "pass_candidate cv img s =
     (let lines_sorted = sort (grid_horizontal cv img s)
      in if length lines_sorted < 3 then None
         else best_cluster (shape0 img) (strategy_name s) None 0
                (pass_clusters (shape0 img) lines_sorted))"

definition find_graph_area :: "collaborators \<Rightarrow> image \<Rightarrow> grid_info" where
  "find_graph_area cv img =
     (let all_passes_candidates = List.map_filter (pass_candidate cv img) (strategies (shape1 img))
      in case all_passes_candidates of
           [] \<Rightarrow> \<lparr>grid_y_top = None, grid_y_bottom = None, lines = [], avg_delta = 0\<rparr>
         | c # cs \<Rightarrow>
             let best_candidate = max_by score c cs;
                 best = cluster best_candidate
             in \<lparr>grid_y_top = Some (fold min (tl best) (hd best)),
                 grid_y_bottom = Some (fold max (tl best) (hd best)),
                 lines = best,
                 avg_delta = np_median (map of_int (np_diff best))\<rparr>)"


section \<open>Compositor\<close>

record day_entry =
  minutes :: real
  pixels :: int

record calc_record =
  target_day :: string
  final_minutes :: real
  raw_max_value :: real
  zero_line_y_original :: int
  pixels_height :: int
  scale_factor :: real
  full_map :: "string \<Rightarrow> day_entry option"

record legacy_record =
  day :: string
  legacy_minutes :: real
  found :: bool
  scale_min_per_px :: real
  max_val_y :: real

text \<open>The three shapes of dictionary the entry points return.\<close>

datatype response = ErrorDict string | ResultDict calc_record | LegacyDict legacy_record

definition is_digit :: "char \<Rightarrow> bool" where
  "is_digit c = (c \<in> set ''0123456789'')"

definition digits_value :: "string \<Rightarrow> nat" where
  "digits_value s = foldl (\<lambda>a c. 10 * a + (of_char c - 48)) 0 s"

definition clean_val :: "string \<Rightarrow> string" where
  \<comment> \<open>\<^verbatim>\<open>re.sub(r"[^\d\.]", "", raw_top_value)\<close> (on ASCII text)\<close>
  "clean_val raw_top_value = filter (\<lambda>c. is_digit c \<or> c = CHR ''.'') raw_top_value"

definition py_float :: "string \<Rightarrow> py_error + real" where
  \<comment> \<open>\<^verbatim>\<open>float(s)\<close> on a string of digits and dots, which is all \<open>clean_val\<close> leaves:
      at most one dot and at least one digit, ValueError otherwise\<close>
  "py_float s =
     (let int_part = takeWhile is_digit s; rest = dropWhile is_digit s
      in case rest of
           [] \<Rightarrow> if int_part = [] then Inl ValueError else Inr (real (digits_value int_part))
         | c # frac_part \<Rightarrow>
             if c = CHR ''.'' \<and> list_all is_digit frac_part \<and> (int_part \<noteq> [] \<or> frac_part \<noteq> [])
             then Inr (real (digits_value int_part)
                       + real (digits_value frac_part) / 10 ^ length frac_part)
             else Inl ValueError)"

definition max_value_minutes :: "string \<Rightarrow> py_error + real" where
  \<comment> \<open>the \<^verbatim>\<open>try\<close> block: a ValueError is caught and gives 0\<close>
  "max_value_minutes raw_top_value =
     (case (if clean_val raw_top_value \<noteq> [] then py_float (clean_val raw_top_value) else Inr 0) of
        Inl ValueError \<Rightarrow> Inr 0
      | Inl e \<Rightarrow> Inl e
      | Inr v \<Rightarrow> Inr v)"

definition scale_minutes_per_px :: "real \<Rightarrow> int \<Rightarrow> py_error + real" where
  "scale_minutes_per_px max_value pixel_span =
     (if 0 < pixel_span \<and> 0 < max_value then py_truediv max_value (of_int pixel_span)
      else Inr 0)"

definition crop_top :: "int \<Rightarrow> int" where
  "crop_top max_line_y = max 0 (max_line_y - 50)"

definition crop_bottom :: "int \<Rightarrow> int \<Rightarrow> int" where
  "crop_bottom image_height zero_line_y = min image_height (zero_line_y + 100)"

definition label_step ::
  "int \<Rightarrow> int \<Rightarrow> real \<Rightarrow> bar_position list \<Rightarrow> label_obj
   \<Rightarrow> (string \<Rightarrow> day_entry option) \<times> nat \<Rightarrow> (string \<Rightarrow> day_entry option) \<times> nat" where
  \<comment> \<open>one round of the loop over \<^verbatim>\<open>labels_rtl\<close>, on the pair of \<^verbatim>\<open>day_value_map\<close>
      and \<^verbatim>\<open>bar_index\<close>\<close>
  "label_step zero_line_y ctop scale bars_rtl label_obj = (\<lambda>(day_value_map, bar_index).
     let day_name = label label_obj
     in if has_bar label_obj
        then if bar_index < length bars_rtl
             then let current_bar = bars_rtl ! bar_index;
                      bar_top_y_cropped = y_top current_bar;
                      bar_top_y_normalized = bar_top_y_cropped + ctop;
                      bar_pixel_height = zero_line_y - bar_top_y_normalized;
                      calculated_minutes = of_int bar_pixel_height * scale
                  in (day_value_map(day_name \<mapsto>
                        \<lparr>minutes = py_round1 calculated_minutes, pixels = bar_pixel_height\<rparr>),
                      bar_index + 1)
             else (day_value_map(day_name \<mapsto> \<lparr>minutes = py_round1 0, pixels = 0\<rparr>),
                   bar_index)
        else (day_value_map(day_name \<mapsto> \<lparr>minutes = py_round1 0, pixels = 0\<rparr>), bar_index))"

definition map_labels ::
  "int \<Rightarrow> int \<Rightarrow> real \<Rightarrow> bar_position list \<Rightarrow> label_obj list
   \<Rightarrow> (string \<Rightarrow> day_entry option) \<times> nat" where
  "map_labels zero_line_y ctop scale bars_rtl labels_rtl =
     fold (label_step zero_line_y ctop scale bars_rtl) labels_rtl (Map.empty, 0)"

definition calculate_minutes_for_day ::
  "collaborators \<Rightarrow> files \<Rightarrow> string \<Rightarrow> string \<Rightarrow> py_error + response" where
  "calculate_minutes_for_day cv fs image_path tday =
     (case load_image fs image_path of
        None \<Rightarrow> Inr (ErrorDict ''Image could not be loaded'')
      | Some img \<Rightarrow>
         (let image_height = shape0 img;
              image_width = shape1 img;
              info = find_graph_area cv img
          in if grid_y_bottom info = None \<or> grid_y_top info = None
             then Inr (ErrorDict ''Failed to detect graph grid lines'')
             else
              (let zero_line_y = the (grid_y_bottom info);
                   max_line_y = the (grid_y_top info);
                   ctop = crop_top max_line_y;
                   cbottom = crop_bottom image_height zero_line_y;
                   cropped_img = crop img ctop cbottom 0 image_width;
                   semantic = extract_graph_data cv cropped_img
               in (case max_value_minutes (y_axis_top_value semantic) of
                     Inl e \<Rightarrow> Inl e
                   | Inr max_value \<Rightarrow>
                      (case scale_minutes_per_px max_value (zero_line_y - max_line_y) of
                         Inl e \<Rightarrow> Inl e
                       | Inr scale \<Rightarrow>
                          (let detected_bars_cropped =
                                 cleaned_final_positions (detect_bars_positions cv cropped_img);
                               bars_rtl = sorted_reverse center_x detected_bars_cropped;
                               day_value_map =
                                 fst (map_labels zero_line_y ctop scale bars_rtl (x_axis semantic));
                               result_data = day_value_map tday
                           in Inr (ResultDict
                                \<lparr>target_day = tday,
                                 final_minutes =
                                   (case result_data of Some d \<Rightarrow> minutes d | None \<Rightarrow> 0),
                                 raw_max_value = max_value,
                                 zero_line_y_original = zero_line_y,
                                 pixels_height =
                                   (case result_data of Some d \<Rightarrow> pixels d | None \<Rightarrow> 0),
                                 scale_factor = scale,
                                 full_map = day_value_map\<rparr>)))))))"


section \<open>GraphTelemetryService.process_day\<close>

datatype image_input = NdArray image | PathStr string | OtherInput

definition get_target_day :: "response \<Rightarrow> string \<Rightarrow> string" where
  "get_target_day r d = (case r of ResultDict x \<Rightarrow> target_day x | _ \<Rightarrow> d)"

definition get_minutes :: "response \<Rightarrow> real \<Rightarrow> real" where
  "get_minutes r d = (case r of ResultDict x \<Rightarrow> final_minutes x | _ \<Rightarrow> d)"

definition get_full_map :: "response \<Rightarrow> (string \<Rightarrow> day_entry option)" where
  "get_full_map r = (case r of ResultDict x \<Rightarrow> full_map x | _ \<Rightarrow> Map.empty)"

definition get_scale_factor :: "response \<Rightarrow> real \<Rightarrow> real" where
  "get_scale_factor r d = (case r of ResultDict x \<Rightarrow> scale_factor x | _ \<Rightarrow> d)"

definition get_raw_max_value :: "response \<Rightarrow> real \<Rightarrow> real" where
  "get_raw_max_value r d = (case r of ResultDict x \<Rightarrow> raw_max_value x | _ \<Rightarrow> d)"

definition process_day ::
  "collaborators \<Rightarrow> files \<Rightarrow> string \<Rightarrow> image_input \<Rightarrow> string
   \<Rightarrow> (py_error + response) \<times> files" where
  \<comment> \<open>\<open>temp_path\<close> is the name \<^verbatim>\<open>tempfile.NamedTemporaryFile\<close> hands out\<close>
  "process_day cv fs temp_path image_input tday =
     (case image_input of
        NdArray arr \<Rightarrow>
          let fs1 = fs(temp_path \<mapsto> arr);
              result = calculate_minutes_for_day cv fs1 temp_path tday
          in (result, fs1(temp_path := None))
      | PathStr path \<Rightarrow>
          (case calculate_minutes_for_day cv fs path tday of
             Inl e \<Rightarrow> (Inl e, fs)
           | Inr result \<Rightarrow>
               (Inr (LegacyDict
                  \<lparr>day = get_target_day result tday,
                   legacy_minutes = get_minutes result 0,
                   found = (0 < get_minutes result 0 \<or> tday \<in> dom (get_full_map result)),
                   scale_min_per_px = get_scale_factor result 0,
                   max_val_y = get_raw_max_value result 0\<rparr>), fs))
      | OtherInput \<Rightarrow> (Inr (ErrorDict ''Invalid image input''), fs))"


section \<open>A concrete screenshot\<close>

text \<open>
  A 700 by 400 image with grid lines at 100, 300 and 500, three bright bars (the third
  one drawn below the zero line) and seven day labels, four of them flagged as having a
  bar.  The examples below run the pipeline on it.
\<close>

definition shot_img :: image where
  "shot_img = replicate 700 (replicate 400 (0, 0, 0))"

definition shot_labels :: "label_obj list" where
  "shot_labels =
     [\<lparr>label = ''Sat'', has_bar = False\<rparr>, \<lparr>label = ''Fri'', has_bar = True\<rparr>,
      \<lparr>label = ''Thu'', has_bar = True\<rparr>, \<lparr>label = ''Wed'', has_bar = False\<rparr>,
      \<lparr>label = ''Tue'', has_bar = True\<rparr>, \<lparr>label = ''Mon'', has_bar = True\<rparr>,
      \<lparr>label = ''Sun'', has_bar = False\<rparr>]"

definition shot_contours :: "contour list" where
  "shot_contours =
     [\<lparr>bounding_rect = (100, 500, 20, 30), contour_area = 600, contour_points = [(100, 500)]\<rparr>,
      \<lparr>bounding_rect = (300, 250, 20, 200), contour_area = 4000, contour_points = [(300, 250)]\<rparr>,
      \<lparr>bounding_rect = (200, 350, 20, 100), contour_area = 2000, contour_points = [(200, 350)]\<rparr>]"

definition shot_cv :: collaborators where
  "shot_cv =
     \<lparr>grid_horizontal = (\<lambda>img s. [100, 300, 500]),
      contours_ios = (\<lambda>img. shot_contours),
      contours_dark = (\<lambda>img. []),
      contours_light = (\<lambda>img. []),
      extract_graph_data = (\<lambda>img. \<lparr>x_axis = shot_labels, y_axis_top_value = ''240''\<rparr>)\<rparr>"

definition shot_fs :: files where
  "shot_fs = [''shot.png'' \<mapsto> shot_img]"

definition shot_bars_rtl :: "bar_position list" where
  "shot_bars_rtl =
     [\<lparr>center_x = 310, center_y = 350, y_top = 250, bbox = (300, 250, 20, 200), bar_type = ''iOS''\<rparr>,
      \<lparr>center_x = 210, center_y = 400, y_top = 350, bbox = (200, 350, 20, 100), bar_type = ''iOS''\<rparr>,
      \<lparr>center_x = 110, center_y = 515, y_top = 500, bbox = (100, 500, 20, 30), bar_type = ''iOS''\<rparr>]"

text \<open>Two labels that carry the same day name.\<close>

definition repeated_labels :: "label_obj list" where
  "repeated_labels = [\<lparr>label = ''Sun'', has_bar = False\<rparr>, \<lparr>label = ''Sun'', has_bar = True\<rparr>]"

text \<open>
  What every cluster the grid search scores has: no line in the top tenth of the image,
  and a first line above the bottom fiftieth.
\<close>

definition plausible :: "int \<Rightarrow> int list \<Rightarrow> bool" where
  "plausible image_height c =
     (c \<noteq> [] \<and> (\<forall>x \<in> set c. real_of_int image_height * 0.10 < of_int x)
      \<and> (\<exists>x \<in> set c. real_of_int x < of_int image_height * 0.98))"

text \<open>A 200-row image whose grid runs from y = 30 to y = 190, close to both borders.\<close>

definition edge_img :: image where
  "edge_img = replicate 200 (replicate 400 (0, 0, 0))"

definition edge_cv :: collaborators where
  "edge_cv = shot_cv\<lparr>grid_horizontal := (\<lambda>img s. [30, 110, 190])\<rparr>"

text \<open>
  A dark-theme chart: three bars standing on the baseline y = 300, and three shapes the
  size and ratio tests set aside as suspects: a flat stub on the baseline with the width
  of a bar, a wide banner on the baseline, and a stray stub far above the baseline.
\<close>

definition dark_img :: image where
  "dark_img = replicate 600 (replicate 400 (0, 0, 0))"

definition bar_a :: contour where
  "bar_a = \<lparr>bounding_rect = (50, 100, 20, 200), contour_area = 4000, contour_points = [(50, 100)]\<rparr>"

definition bar_b :: contour where
  "bar_b = \<lparr>bounding_rect = (100, 150, 22, 150), contour_area = 3300, contour_points = [(100, 150)]\<rparr>"

definition bar_c :: contour where
  "bar_c = \<lparr>bounding_rect = (150, 200, 20, 100), contour_area = 2000, contour_points = [(150, 200)]\<rparr>"

definition stub :: contour where
  "stub = \<lparr>bounding_rect = (200, 296, 20, 4), contour_area = 80, contour_points = [(200, 296)]\<rparr>"

definition banner :: contour where
  "banner = \<lparr>bounding_rect = (0, 290, 300, 10), contour_area = 3000, contour_points = [(0, 290)]\<rparr>"

definition stray :: contour where
  "stray = \<lparr>bounding_rect = (250, 100, 20, 4), contour_area = 80, contour_points = [(250, 100)]\<rparr>"

definition dark_cv :: collaborators where
  "dark_cv =
     \<lparr>grid_horizontal = (\<lambda>img s. []),
      contours_ios = (\<lambda>img. []),
      contours_dark = (\<lambda>img. [bar_a, stub, bar_b, banner, bar_c, stray]),
      contours_light = (\<lambda>img. []),
      extract_graph_data = (\<lambda>img. \<lparr>x_axis = [], y_axis_top_value = ''0''\<rparr>)\<rparr>"

text \<open>
  A light-theme chart with three domes (and too few dark-theme candidates), and a chart
  in which no variant finds anything.
\<close>

definition dome_a :: contour where
  "dome_a = \<lparr>bounding_rect = (50, 100, 40, 10), contour_area = 300, contour_points = [(50, 100)]\<rparr>"

definition dome_b :: contour where
  "dome_b = \<lparr>bounding_rect = (250, 140, 40, 10), contour_area = 300, contour_points = [(250, 140)]\<rparr>"

definition dome_c :: contour where
  "dome_c = \<lparr>bounding_rect = (150, 120, 40, 10), contour_area = 300, contour_points = [(150, 120)]\<rparr>"

definition light_cv :: collaborators where
  "light_cv = dark_cv\<lparr>contours_dark := (\<lambda>img. [bar_a, stub]),
                      contours_light := (\<lambda>img. [dome_a, dome_b, dome_c])\<rparr>"

definition blank_cv :: collaborators where
  "blank_cv = dark_cv\<lparr>contours_dark := (\<lambda>img. [])\<rparr>"


section \<open>The scale factor\<close>

lemma py_float_nonneg: "py_float s = Inr v \<Longrightarrow> 0 \<le> v"
  by (auto simp: py_float_def Let_def split: list.splits if_splits)

lemma max_value_minutes_cases:
  "\<exists>v. max_value_minutes raw = Inr v \<and> 0 \<le> v
       \<and> (clean_val raw = [] \<or> py_float (clean_val raw) = Inl ValueError \<longrightarrow> v = 0)"
proof (cases "clean_val raw = []")
  case True
  then show ?thesis by (simp add: max_value_minutes_def)
next
  case False
  show ?thesis
  proof (cases "py_float (clean_val raw)")
    case (Inl e)
    then have "e = ValueError"
      by (auto simp: py_float_def Let_def split: list.splits if_splits)
    with Inl False show ?thesis by (simp add: max_value_minutes_def)
  next
    case (Inr v)
    with False py_float_nonneg[OF Inr] show ?thesis by (simp add: max_value_minutes_def)
  qed
qed

text \<open>
  Claim C3.  The scale factor is the top-axis value divided by the pixel span
  \<open>zero_line_y - max_line_y\<close> when both are strictly positive and 0 in every other case.
  It is never negative, and the guarded division never raises ZeroDivisionError: the
  result is always a value.  The parsed top-axis value is itself never negative, and it
  is 0 when nothing is left after cleaning or when \<open>float\<close> rejects what is left.
\<close>

theorem scale_factor_guarded:
  "scale_minutes_per_px top_value (zero_line_y - max_line_y) =
     Inr (if 0 < top_value \<and> 0 < zero_line_y - max_line_y
          then top_value / real_of_int (zero_line_y - max_line_y) else 0)
   \<and> (\<exists>s. scale_minutes_per_px top_value (zero_line_y - max_line_y) = Inr s \<and> 0 \<le> s)
   \<and> (\<exists>v. max_value_minutes raw = Inr v \<and> 0 \<le> v
          \<and> (clean_val raw = [] \<or> py_float (clean_val raw) = Inl ValueError \<longrightarrow> v = 0))"
proof (intro conjI)
  show "scale_minutes_per_px top_value (zero_line_y - max_line_y) =
     Inr (if 0 < top_value \<and> 0 < zero_line_y - max_line_y
          then top_value / real_of_int (zero_line_y - max_line_y) else 0)"
    by (simp add: scale_minutes_per_px_def py_truediv_def)
  then show "\<exists>s. scale_minutes_per_px top_value (zero_line_y - max_line_y) = Inr s \<and> 0 \<le> s"
    by simp
  show "\<exists>v. max_value_minutes raw = Inr v \<and> 0 \<le> v
          \<and> (clean_val raw = [] \<or> py_float (clean_val raw) = Inl ValueError \<longrightarrow> v = 0)"
    by (rule max_value_minutes_cases)
qed

theorem scale_factor_guarded_witness:
  "scale_minutes_per_px 240 (500 - 100) = Inr (3 / 5)
   \<and> scale_minutes_per_px 240 (100 - 500) = Inr 0
   \<and> max_value_minutes ''1.2.3'' = Inr 0"
proof -
  have a: "scale_minutes_per_px 240 (500 - 100) = Inr (3 / 5)"
    using scale_factor_guarded [of 240 500 100 "''1.2.3''"] by simp
  have b: "scale_minutes_per_px 240 (100 - 500) = Inr 0"
    using scale_factor_guarded [of 240 100 500 "''1.2.3''"] by simp
  have "py_float (clean_val ''1.2.3'') = Inl ValueError"
    by (simp add: clean_val_def is_digit_def py_float_def)
  then have c: "max_value_minutes ''1.2.3'' = Inr 0"
    using scale_factor_guarded [of 240 500 100 "''1.2.3''"] by auto
  from a b c show ?thesis by simp
qed


section \<open>The concrete screenshot, evaluated\<close>

lemma shot_grid:
  "find_graph_area shot_cv shot_img =
     \<lparr>grid_y_top = Some 100, grid_y_bottom = Some 500, lines = [100, 300, 500], avg_delta = 200\<rparr>"
proof -
  have fs: "final_score 700 [100, 300, 500] = 4320"
    by (simp add: final_score_def base_score_def np_diff_def np_std_def np_mean_def
        location_multiplier_def)
  have pc: "pass_clusters 700 [100, 300, 500] = [[100, 300, 500]]"
    by (simp add: pass_clusters_def upt_rec Let_def)
  have "\<And>s. pass_candidate shot_cv shot_img s =
          Some \<lparr>cluster = [100, 300, 500], score = 4320, pass_name = strategy_name s\<rparr>"
    by (simp add: pass_candidate_def shot_cv_def shot_img_def shape0_def pc fs)
  then show ?thesis
    by (simp add: find_graph_area_def strategies_def List.map_filter_def np_median_def np_diff_def)
qed

lemma shot_detect:
  "detect_bars_positions shot_cv img =
     \<lparr>cleaned_final_positions = rev shot_bars_rtl, detection_type = ''iOS'',
      invoked = [''detect_ios_bars'']\<rparr>"
  by (simp add: detect_bars_positions_def detect_ios_bars_def shot_cv_def shot_contours_def
      process_contours_to_positions_def py_int_def draw_final_bars_def shot_bars_rtl_def
      bar_position.truncate_def)

lemma shot_sorted: "sorted_reverse center_x (rev shot_bars_rtl) = shot_bars_rtl"
  by (simp add: sorted_reverse_def shot_bars_rtl_def)

lemma shot_map:
  "fst (map_labels 500 50 (3 / 5) shot_bars_rtl shot_labels) =
     [''Sat'' \<mapsto> \<lparr>minutes = 0, pixels = 0\<rparr>, ''Fri'' \<mapsto> \<lparr>minutes = 120, pixels = 200\<rparr>,
      ''Thu'' \<mapsto> \<lparr>minutes = 60, pixels = 100\<rparr>, ''Wed'' \<mapsto> \<lparr>minutes = 0, pixels = 0\<rparr>,
      ''Tue'' \<mapsto> \<lparr>minutes = - 30, pixels = - 50\<rparr>, ''Mon'' \<mapsto> \<lparr>minutes = 0, pixels = 0\<rparr>,
      ''Sun'' \<mapsto> \<lparr>minutes = 0, pixels = 0\<rparr>]"
  by (simp add: map_labels_def shot_labels_def shot_bars_rtl_def label_step_def
      py_round1_def round_half_even_def)

lemma shot_calc:
  "calculate_minutes_for_day shot_cv shot_fs ''shot.png'' d =
     Inr (ResultDict
       \<lparr>target_day = d,
        final_minutes = (case fst (map_labels 500 50 (3 / 5) shot_bars_rtl shot_labels) d of
                           Some e \<Rightarrow> minutes e | None \<Rightarrow> 0),
        raw_max_value = 240, zero_line_y_original = 500,
        pixels_height = (case fst (map_labels 500 50 (3 / 5) shot_bars_rtl shot_labels) d of
                           Some e \<Rightarrow> pixels e | None \<Rightarrow> 0),
        scale_factor = 3 / 5,
        full_map = fst (map_labels 500 50 (3 / 5) shot_bars_rtl shot_labels)\<rparr>)"
proof -
  have mv: "max_value_minutes ''240'' = Inr 240"
    by (simp add: max_value_minutes_def clean_val_def is_digit_def py_float_def digits_value_def)
  have sc: "scale_minutes_per_px 240 400 = Inr (3 / 5)"
    by (simp add: scale_minutes_per_px_def py_truediv_def)
  have ld: "load_image shot_fs ''shot.png'' = Some shot_img"
    by (simp add: load_image_def shot_fs_def)
  have ex: "\<And>img. extract_graph_data shot_cv img = \<lparr>x_axis = shot_labels, y_axis_top_value = ''240''\<rparr>"
    by (simp add: shot_cv_def)
  show ?thesis
    by (simp add: calculate_minutes_for_day_def ld shot_grid ex mv sc shot_detect shot_sorted
        crop_top_def Let_def)
qed

section \<open>The loop over the labels\<close>

lemma label_step_index:
  "snd (label_step z c s bars l (m, b)) =
     (if has_bar l \<and> b < length bars then b + 1 else b)"
  by (simp add: label_step_def Let_def)

lemma label_step_other:
  "d \<noteq> label l \<Longrightarrow> fst (label_step z c s bars l (m, b)) d = m d"
  by (simp add: label_step_def Let_def)

lemma label_step_dom:
  "dom (fst (label_step z c s bars l (m, b))) = insert (label l) (dom m)"
  by (simp add: label_step_def Let_def)

lemma fold_label_step_index:
  "b \<le> length bars \<Longrightarrow>
   snd (fold (label_step z c s bars) ls (m, b)) =
     min (b + length (filter has_bar ls)) (length bars)"
proof (induction ls arbitrary: m b)
  case Nil
  then show ?case by simp
next
  case (Cons l ls)
  obtain m' b' where st: "label_step z c s bars l (m, b) = (m', b')"
    by (cases "label_step z c s bars l (m, b)")
  have b': "b' = (if has_bar l \<and> b < length bars then b + 1 else b)"
    using label_step_index [of z c s bars l m b] st by simp
  with Cons.prems have "b' \<le> length bars" by auto
  from Cons.IH [OF this, of m'] st b' Cons.prems show ?case
    by (auto simp: min_def)
qed

lemma fold_label_step_other:
  "d \<notin> label ` set ls \<Longrightarrow> fst (fold (label_step z c s bars) ls (m, b)) d = m d"
proof (induction ls arbitrary: m b)
  case Nil
  then show ?case by simp
next
  case (Cons l ls)
  obtain m' b' where st: "label_step z c s bars l (m, b) = (m', b')"
    by (cases "label_step z c s bars l (m, b)")
  from Cons.prems have "d \<noteq> label l" "d \<notin> label ` set ls" by auto
  with Cons.IH [of m' b'] st label_step_other [of d l z c s bars m b] show ?case
    by simp
qed

lemma fold_label_step_dom:
  "dom (fst (fold (label_step z c s bars) ls (m, b))) = dom m \<union> label ` set ls"
proof (induction ls arbitrary: m b)
  case Nil
  then show ?case by simp
next
  case (Cons l ls)
  obtain m' b' where st: "label_step z c s bars l (m, b) = (m', b')"
    by (cases "label_step z c s bars l (m, b)")
  with label_step_dom [of z c s bars l m b] have "dom m' = insert (label l) (dom m)" by simp
  with Cons.IH [of m' b'] st show ?case by auto
qed

text \<open>The state after the round of label number i.\<close>

lemma round_state:
  assumes "i < length labels"
  shows "fold (label_step z c s bars) (take (Suc i) labels) (Map.empty, 0) =
         label_step z c s bars (labels ! i)
           (fst (fold (label_step z c s bars) (take i labels) (Map.empty, 0)),
            min (length (filter has_bar (take i labels))) (length bars))"
proof -
  have "snd (fold (label_step z c s bars) (take i labels) (Map.empty, 0)) =
          min (length (filter has_bar (take i labels))) (length bars)"
    using fold_label_step_index [of 0 bars z c s "take i labels" Map.empty] by simp
  then have "fold (label_step z c s bars) (take i labels) (Map.empty, 0) =
          (fst (fold (label_step z c s bars) (take i labels) (Map.empty, 0)),
            min (length (filter has_bar (take i labels))) (length bars))"
    by (metis prod.collapse)
  then show ?thesis
    using assms by (simp add: take_Suc_conv_app_nth)
qed

lemma final_map_last:
  assumes "i < length labels" "label (labels ! i) \<notin> label ` set (drop (Suc i) labels)"
  shows "fst (map_labels z c s bars labels) (label (labels ! i)) =
         fst (fold (label_step z c s bars) (take (Suc i) labels) (Map.empty, 0)) (label (labels ! i))"
proof -
  have "map_labels z c s bars labels =
          fold (label_step z c s bars) (drop (Suc i) labels)
            (fold (label_step z c s bars) (take (Suc i) labels) (Map.empty, 0))"
    unfolding map_labels_def
    by (metis append_take_drop_id fold_append comp_apply)
  then show ?thesis
    using fold_label_step_other [OF assms(2), of z c s bars
        "fst (fold (label_step z c s bars) (take (Suc i) labels) (Map.empty, 0))"
        "snd (fold (label_step z c s bars) (take (Suc i) labels) (Map.empty, 0))"]
    by simp
qed

lemma py_round1_zero: "py_round1 0 = 0"
  by (simp add: py_round1_def round_half_even_def)

lemma round_half_even_neg: "r < - (1 / 2) \<Longrightarrow> round_half_even r < 0"
proof -
  assume r: "r < - (1 / 2)"
  have fl: "of_int \<lfloor>r\<rfloor> \<le> r" by simp
  then have "\<lfloor>r\<rfloor> < 0" using r by linarith
  then have f1: "\<lfloor>r\<rfloor> \<le> - 1" by linarith
  show ?thesis
  proof (cases "\<lfloor>r\<rfloor> = - 1")
    case True
    then have "r - of_int \<lfloor>r\<rfloor> < 1 / 2" using r by simp
    with True show ?thesis by (simp add: round_half_even_def Let_def)
  next
    case False
    with f1 have "\<lfloor>r\<rfloor> + 1 < 0" by linarith
    with f1 show ?thesis by (auto simp: round_half_even_def Let_def)
  qed
qed

lemma py_round1_neg: "x < - (1 / 20) \<Longrightarrow> py_round1 x < 0"
  using round_half_even_neg [of "x * 10"]
  by (simp add: py_round1_def divide_less_0_iff)



text \<open>
  Claim C7, as stated, fails when two labels carry the same day name: the map is keyed by
  day name, so the two labels share one entry, and the entry of the unflagged first label
  is overwritten by the flagged second one.
\<close>

theorem day_entry_per_label_counterexample:
  "length repeated_labels = 2 \<and> \<not> has_bar (repeated_labels ! 0)
   \<and> fst (map_labels 500 (crop_top 100) (3 / 5) shot_bars_rtl repeated_labels)
        (label (repeated_labels ! 0)) = Some \<lparr>minutes = 120, pixels = 200\<rparr>
   \<and> dom (fst (map_labels 500 (crop_top 100) (3 / 5) shot_bars_rtl repeated_labels)) = {''Sun''}"
  by (simp add: repeated_labels_def map_labels_def label_step_def shot_bars_rtl_def crop_top_def
      py_round1_def round_half_even_def)

text \<open>
  Claim C7, amended.  The map has one entry per distinct day name among the labels, hence
  one per label when the day names are pairwise distinct.  In its own round every label
  without \<open>has_bar\<close>, and every flagged label for which no unconsumed bar remains, is
  given minutes 0 and pixels 0 and the bar index stays where it was; the finished map
  holds, for each day name, the entry of the last label that carries it.
\<close>

theorem day_value_map_entries:
  "dom (fst (map_labels z c s bars labels_rtl)) = label ` set labels_rtl
   \<and> (distinct (map label labels_rtl) \<longrightarrow>
        card (dom (fst (map_labels z c s bars labels_rtl))) = length labels_rtl)
   \<and> (\<forall>i < length labels_rtl.
        (\<not> has_bar (labels_rtl ! i)
           \<or> length bars \<le> length (filter has_bar (take i labels_rtl)) \<longrightarrow>
           fst (fold (label_step z c s bars) (take (Suc i) labels_rtl) (Map.empty, 0))
             (label (labels_rtl ! i)) = Some \<lparr>minutes = 0, pixels = 0\<rparr>
           \<and> snd (fold (label_step z c s bars) (take (Suc i) labels_rtl) (Map.empty, 0))
             = snd (fold (label_step z c s bars) (take i labels_rtl) (Map.empty, 0)))
        \<and> (label (labels_rtl ! i) \<notin> label ` set (drop (Suc i) labels_rtl) \<longrightarrow>
             fst (map_labels z c s bars labels_rtl) (label (labels_rtl ! i))
             = fst (fold (label_step z c s bars) (take (Suc i) labels_rtl) (Map.empty, 0))
                 (label (labels_rtl ! i))))"
proof (intro conjI impI allI)
  let ?S = "label_step z c s bars"
  show d: "dom (fst (map_labels z c s bars labels_rtl)) = label ` set labels_rtl"
    using fold_label_step_dom [of z c s bars labels_rtl Map.empty 0]
    by (simp add: map_labels_def)
  {
    assume "distinct (map label labels_rtl)"
    then have "card (label ` set labels_rtl) = length labels_rtl"
      by (metis distinct_card length_map set_map)
    with d show "card (dom (fst (map_labels z c s bars labels_rtl))) = length labels_rtl"
      by simp
  }
  fix i
  assume i: "i < length labels_rtl"
  have idx: "snd (fold ?S (take i labels_rtl) (Map.empty, 0)) =
          min (length (filter has_bar (take i labels_rtl))) (length bars)"
    using fold_label_step_index [of 0 bars z c s "take i labels_rtl" Map.empty] by simp
  note rs = round_state [OF i, of z c s bars]
  {
    assume h: "\<not> has_bar (labels_rtl ! i)
           \<or> length bars \<le> length (filter has_bar (take i labels_rtl))"
    then have nb: "\<not> (has_bar (labels_rtl ! i)
        \<and> min (length (filter has_bar (take i labels_rtl))) (length bars) < length bars)"
      by auto
    from nb show "fst (fold ?S (take (Suc i) labels_rtl) (Map.empty, 0))
             (label (labels_rtl ! i)) = Some \<lparr>minutes = 0, pixels = 0\<rparr>"
      unfolding rs by (auto simp: label_step_def Let_def py_round1_zero)
    from nb show "snd (fold ?S (take (Suc i) labels_rtl) (Map.empty, 0))
             = snd (fold ?S (take i labels_rtl) (Map.empty, 0))"
      unfolding rs idx label_step_index by simp
  }
  {
    assume "label (labels_rtl ! i) \<notin> label ` set (drop (Suc i) labels_rtl)"
    then show "fst (map_labels z c s bars labels_rtl) (label (labels_rtl ! i))
             = fst (fold ?S (take (Suc i) labels_rtl) (Map.empty, 0)) (label (labels_rtl ! i))"
      using final_map_last [OF i, of z c s bars] by simp
  }
qed

theorem day_value_map_entries_witness:
  "length shot_labels = 7 \<and> length (filter has_bar shot_labels) = 4 \<and> length shot_bars_rtl = 3
   \<and> card (dom (fst (map_labels 500 50 (3 / 5) shot_bars_rtl shot_labels))) = 7
   \<and> fst (map_labels 500 50 (3 / 5) shot_bars_rtl shot_labels) ''Mon''
        = Some \<lparr>minutes = 0, pixels = 0\<rparr>
   \<and> fst (map_labels 500 50 (3 / 5) shot_bars_rtl shot_labels) ''Sat''
        = Some \<lparr>minutes = 0, pixels = 0\<rparr>"
proof -
  note t = day_value_map_entries [of 500 50 "3 / 5" shot_bars_rtl shot_labels]
  have n: "length shot_labels = 7" "length (filter has_bar shot_labels) = 4"
    "length shot_bars_rtl = 3" "distinct (map label shot_labels)"
    by (simp_all add: shot_labels_def shot_bars_rtl_def)
  have mon: "has_bar (shot_labels ! 5)" "label (shot_labels ! 5) = ''Mon''"
    "length shot_bars_rtl \<le> length (filter has_bar (take 5 shot_labels))"
    "label (shot_labels ! 5) \<notin> label ` set (drop (Suc 5) shot_labels)"
    by (simp_all add: shot_labels_def shot_bars_rtl_def)
  have sat: "\<not> has_bar (shot_labels ! 0)" "label (shot_labels ! 0) = ''Sat''"
    "label (shot_labels ! 0) \<notin> label ` set (drop (Suc 0) shot_labels)"
    by (simp_all add: shot_labels_def)
  from t have "distinct (map label shot_labels) \<longrightarrow>
      card (dom (fst (map_labels 500 50 (3 / 5) shot_bars_rtl shot_labels))) = length shot_labels"
    by (rule conjunct2 [THEN conjunct1])
  with n have c: "card (dom (fst (map_labels 500 50 (3 / 5) shot_bars_rtl shot_labels))) = 7"
    by simp
  from t have a: "\<forall>i<length shot_labels.
        (\<not> has_bar (shot_labels ! i)
           \<or> length shot_bars_rtl \<le> length (filter has_bar (take i shot_labels)) \<longrightarrow>
           fst (fold (label_step 500 50 (3 / 5) shot_bars_rtl) (take (Suc i) shot_labels) (Map.empty, 0))
             (label (shot_labels ! i)) = Some \<lparr>minutes = 0, pixels = 0\<rparr>
           \<and> snd (fold (label_step 500 50 (3 / 5) shot_bars_rtl) (take (Suc i) shot_labels) (Map.empty, 0))
             = snd (fold (label_step 500 50 (3 / 5) shot_bars_rtl) (take i shot_labels) (Map.empty, 0)))
        \<and> (label (shot_labels ! i) \<notin> label ` set (drop (Suc i) shot_labels) \<longrightarrow>
             fst (map_labels 500 50 (3 / 5) shot_bars_rtl shot_labels) (label (shot_labels ! i))
             = fst (fold (label_step 500 50 (3 / 5) shot_bars_rtl) (take (Suc i) shot_labels) (Map.empty, 0))
                 (label (shot_labels ! i)))"
    by blast
  have "5 < length shot_labels" "0 < length shot_labels" using n by simp_all
  with a mon sat have
    "fst (map_labels 500 50 (3 / 5) shot_bars_rtl shot_labels) ''Mon'' = Some \<lparr>minutes = 0, pixels = 0\<rparr>"
    "fst (map_labels 500 50 (3 / 5) shot_bars_rtl shot_labels) ''Sat'' = Some \<lparr>minutes = 0, pixels = 0\<rparr>"
    by metis+
  with n c show ?thesis by simp
qed

text \<open>
  Claim C10.  Nothing clamps the pixel height or the minutes at zero.  Whenever the bar
  matched to a flagged label has crop-space top y plus crop offset beyond the zero line,
  the recorded pixel height is that negative difference, and the minutes are negative as
  soon as the product with the scale exceeds one twentieth in size.  There is an input
  of the whole pipeline for which the entry of the target day, the returned minutes and
  the returned pixel height are strictly negative.
\<close>

theorem negative_height_not_clamped:
  "(has_bar l \<and> b < length bars_rtl \<and> zero_line_y < y_top (bars_rtl ! b) + ctop \<longrightarrow>
      (\<exists>e. fst (label_step zero_line_y ctop scale bars_rtl l (m, b)) (label l) = Some e
           \<and> pixels e = zero_line_y - (y_top (bars_rtl ! b) + ctop) \<and> pixels e < 0
           \<and> (1 / 20 < of_int (y_top (bars_rtl ! b) + ctop - zero_line_y) * scale
                \<longrightarrow> minutes e < 0)))
   \<and> (\<exists>cv fs path d r e.
         calculate_minutes_for_day cv fs path d = Inr (ResultDict r)
         \<and> full_map r d = Some e \<and> pixels e < 0 \<and> minutes e < 0
         \<and> final_minutes r = minutes e \<and> final_minutes r < 0 \<and> pixels_height r = pixels e)"
proof (intro conjI impI)
  assume a: "has_bar l \<and> b < length bars_rtl \<and> zero_line_y < y_top (bars_rtl ! b) + ctop"
  let ?h = "zero_line_y - (y_top (bars_rtl ! b) + ctop)"
  let ?e = "\<lparr>minutes = py_round1 (of_int ?h * scale), pixels = ?h\<rparr>"
  from a have e: "fst (label_step zero_line_y ctop scale bars_rtl l (m, b)) (label l) = Some ?e"
    by (simp add: label_step_def Let_def)
  have "1 / 20 < of_int (y_top (bars_rtl ! b) + ctop - zero_line_y) * scale
          \<longrightarrow> minutes ?e < 0"
  proof
    assume "1 / 20 < of_int (y_top (bars_rtl ! b) + ctop - zero_line_y) * scale"
    moreover have "real_of_int ?h * scale
          = - (of_int (y_top (bars_rtl ! b) + ctop - zero_line_y) * scale)"
      by (simp add: algebra_simps)
    ultimately have "real_of_int ?h * scale < - (1 / 20)" by linarith
    then show "minutes ?e < 0" using py_round1_neg by simp
  qed
  with e a show "\<exists>e. fst (label_step zero_line_y ctop scale bars_rtl l (m, b)) (label l) = Some e
           \<and> pixels e = ?h \<and> pixels e < 0
           \<and> (1 / 20 < of_int (y_top (bars_rtl ! b) + ctop - zero_line_y) * scale
                \<longrightarrow> minutes e < 0)"
    by (intro exI [of _ ?e]) simp
next
  have "full_map \<lparr>target_day = ''Tue'', final_minutes = - 30, raw_max_value = 240,
                  zero_line_y_original = 500, pixels_height = - 50, scale_factor = 3 / 5,
                  full_map = fst (map_labels 500 50 (3 / 5) shot_bars_rtl shot_labels)\<rparr> ''Tue''
        = Some \<lparr>minutes = - 30, pixels = - 50\<rparr>"
    by (simp add: shot_map)
  moreover have "calculate_minutes_for_day shot_cv shot_fs ''shot.png'' ''Tue'' =
      Inr (ResultDict \<lparr>target_day = ''Tue'', final_minutes = - 30, raw_max_value = 240,
                  zero_line_y_original = 500, pixels_height = - 50, scale_factor = 3 / 5,
                  full_map = fst (map_labels 500 50 (3 / 5) shot_bars_rtl shot_labels)\<rparr>)"
    unfolding shot_calc by (simp add: shot_map)
  ultimately show "\<exists>cv fs path d r e.
         calculate_minutes_for_day cv fs path d = Inr (ResultDict r)
         \<and> full_map r d = Some e \<and> pixels e < 0 \<and> minutes e < 0
         \<and> final_minutes r = minutes e \<and> final_minutes r < 0 \<and> pixels_height r = pixels e"
    by (intro exI [of _ shot_cv] exI [of _ shot_fs] exI [of _ "''shot.png''"] exI [of _ "''Tue''"]
        exI [of _ "\<lparr>target_day = ''Tue'', final_minutes = - 30, raw_max_value = 240,
                  zero_line_y_original = 500, pixels_height = - 50, scale_factor = 3 / 5,
                  full_map = fst (map_labels 500 50 (3 / 5) shot_bars_rtl shot_labels)\<rparr>"]
        exI [of _ "\<lparr>minutes = - 30, pixels = - 50\<rparr>"]) simp
qed

theorem negative_height_not_clamped_witness:
  "500 < y_top (shot_bars_rtl ! 2) + 50
   \<and> (\<exists>e. fst (label_step 500 50 (3 / 5) shot_bars_rtl \<lparr>label = ''Tue'', has_bar = True\<rparr>
              (Map.empty, 2)) ''Tue'' = Some e
          \<and> pixels e = - 50 \<and> minutes e < 0)"
proof -
  have h: "has_bar \<lparr>label = ''Tue'', has_bar = True\<rparr> \<and> 2 < length shot_bars_rtl
      \<and> 500 < y_top (shot_bars_rtl ! 2) + 50"
    by (simp add: shot_bars_rtl_def)
  have v: "500 - (y_top (shot_bars_rtl ! 2) + 50) = - 50"
    "(1::real) / 20 < of_int (y_top (shot_bars_rtl ! 2) + 50 - 500) * (3 / 5)"
    by (simp_all add: shot_bars_rtl_def)
  from negative_height_not_clamped [of "\<lparr>label = ''Tue'', has_bar = True\<rparr>" 2 shot_bars_rtl
      500 50 "3 / 5" Map.empty] h v
  show ?thesis by auto
qed

section \<open>The grid and the crop window\<close>

lemma max_by_in_set: "max_by f x xs \<in> set (x # xs)"
  by (induction xs arbitrary: x) auto

lemma fold_min_in_set: "fold min xs (a::int) \<in> set (a # xs)"
  by (induction xs arbitrary: a) (auto simp: min_def)

lemma fold_min_le: "x \<in> set (a # xs) \<Longrightarrow> fold min xs (a::int) \<le> x"
proof (induction xs arbitrary: a x)
  case Nil
  then show ?case by simp
next
  case (Cons y ys)
  have "fold min ys (min y a) \<le> min y a"
    using Cons.IH [of "min y a" "min y a"] by simp
  moreover have "x = a \<or> x = y \<or> x \<in> set ys" using Cons.prems by auto
  ultimately show ?case using Cons.IH [of x "min y a"] by auto
qed

lemma fold_max_in_set: "fold max xs (a::int) \<in> set (a # xs)"
  by (induction xs arbitrary: a) (auto simp: max_def)

lemma fold_max_ge: "x \<in> set (a # xs) \<Longrightarrow> x \<le> fold max xs (a::int)"
proof (induction xs arbitrary: a x)
  case Nil
  then show ?case by simp
next
  case (Cons y ys)
  have "max y a \<le> fold max ys (max y a)"
    using Cons.IH [of "max y a" "max y a"] by simp
  moreover have "x = a \<or> x = y \<or> x \<in> set ys" using Cons.prems by auto
  ultimately show ?case using Cons.IH [of x "max y a"] by auto
qed

lemma extend_cluster_above:
  "25 < delta \<Longrightarrow> x \<in> set (extend_cluster delta current_line rest) \<Longrightarrow> current_line < x"
proof (induction delta current_line rest rule: extend_cluster.induct)
  case (1 delta current_line)
  then show ?case by simp
next
  case (2 delta current_line c rest)
  show ?case
  proof (cases "\<bar>c - (current_line + delta)\<bar> < 6")
    case True
    with "2.prems" have "x = c \<or> x \<in> set (extend_cluster delta c rest)" by (simp add: Let_def)
    moreover have "current_line < c" using True "2.prems"(1) by linarith
    ultimately show ?thesis using "2.IH"(1) [OF refl True "2.prems"(1)] by auto
  next
    case False
    show ?thesis
    proof (cases "current_line + delta + 6 < c")
      case True
      with False "2.prems" show ?thesis by (simp add: Let_def)
    next
      case nb: False
      with False "2.prems" have "x \<in> set (extend_cluster delta current_line rest)"
        by (simp add: Let_def)
      with "2.IH"(2) [OF refl False nb "2.prems"(1)] show ?thesis by simp
    qed
  qed
qed

lemma pass_clusters_plausible:
  assumes "c \<in> set (pass_clusters image_height lines_sorted)"
  shows "plausible image_height c"
proof -
  define inner where "inner = (\<lambda>i j.
            let line_next = lines_sorted ! j;
                delta = line_next - lines_sorted ! i
            in if \<not> (25 < delta \<and> delta < 300) then []
               else let current_cluster =
                          [lines_sorted ! i, line_next]
                          @ extend_cluster delta line_next (drop (j + 1) lines_sorted)
                    in if 3 \<le> length current_cluster
                       then (if 9 < length current_cluster then [] else [current_cluster])
                       else [])"
  define outer where "outer = (\<lambda>i.
       if \<not> (real_of_int image_height * 0.10 < of_int (lines_sorted ! i)
                 \<and> real_of_int (lines_sorted ! i) < of_int image_height * 0.98) then []
          else concat (map (inner i) [i + 1 ..< length lines_sorted]))"
  have "pass_clusters image_height lines_sorted = concat (map outer [0 ..< length lines_sorted])"
    unfolding pass_clusters_def outer_def inner_def Let_def by (rule refl)
  with assms obtain i where i: "c \<in> set (outer i)" by auto
  then have b: "real_of_int image_height * 0.10 < of_int (lines_sorted ! i)"
       "real_of_int (lines_sorted ! i) < of_int image_height * 0.98"
    by (simp_all add: outer_def split: if_splits)
  with i obtain j where j: "c \<in> set (inner i j)"
    by (auto simp: outer_def)
  let ?d = "lines_sorted ! j - lines_sorted ! i"
  have d: "25 < ?d"
    using j by (simp add: inner_def Let_def split: if_splits)
  have c: "c = [lines_sorted ! i, lines_sorted ! j]
              @ extend_cluster ?d (lines_sorted ! j) (drop (j + 1) lines_sorted)"
    using j by (simp add: inner_def Let_def split: if_splits)
  have ge: "lines_sorted ! i \<le> x" if "x \<in> set c" for x
  proof -
    from that c have "x = lines_sorted ! i \<or> x = lines_sorted ! j
        \<or> x \<in> set (extend_cluster ?d (lines_sorted ! j) (drop (j + 1) lines_sorted))"
      by auto
    moreover have "lines_sorted ! j < x"
      if "x \<in> set (extend_cluster ?d (lines_sorted ! j) (drop (j + 1) lines_sorted))"
      using extend_cluster_above [OF d that] .
    ultimately show ?thesis using d by fastforce
  qed
  have "real_of_int image_height * 0.10 < of_int x" if "x \<in> set c" for x
  proof -
    have "real_of_int (lines_sorted ! i) \<le> of_int x" using ge [OF that] by simp
    with b(1) show ?thesis by linarith
  qed
  moreover have "lines_sorted ! i \<in> set c" by (subst c) simp
  moreover have "c \<noteq> []" by (subst c) simp
  ultimately show ?thesis unfolding plausible_def using b(2) by blast
qed

lemma best_cluster_from:
  "best_cluster image_height name init s cs = Some sc \<Longrightarrow>
   init = Some sc \<or> cluster sc \<in> set cs"
proof (induction cs arbitrary: init s)
  case Nil
  then show ?case by simp
next
  case (Cons c cs)
  show ?case
  proof (cases "s < final_score image_height c")
    case True
    with Cons.prems have "best_cluster image_height name
             (Some \<lparr>cluster = c, score = final_score image_height c, pass_name = name\<rparr>)
             (final_score image_height c) cs = Some sc"
      by simp
    from Cons.IH [OF this] show ?thesis by auto
  next
    case False
    with Cons.prems have "best_cluster image_height name init s cs = Some sc" by simp
    from Cons.IH [OF this] show ?thesis by auto
  qed
qed

lemma pass_candidate_plausible:
  assumes "pass_candidate cv img s = Some sc"
  shows "plausible (shape0 img) (cluster sc)"
proof -
  from assms have "best_cluster (shape0 img) (strategy_name s) None 0
      (pass_clusters (shape0 img) (sort (grid_horizontal cv img s))) = Some sc"
    by (simp add: pass_candidate_def Let_def split: if_splits)
  from best_cluster_from [OF this]
  have "cluster sc \<in> set (pass_clusters (shape0 img) (sort (grid_horizontal cv img s)))"
    by simp
  then show ?thesis by (rule pass_clusters_plausible)
qed

lemma find_graph_area_bounds:
  assumes "grid_y_top (find_graph_area cv img) = Some max_line_y"
      and "grid_y_bottom (find_graph_area cv img) = Some zero_line_y"
  shows "0 < max_line_y \<and> max_line_y \<le> zero_line_y \<and> max_line_y < shape0 img"
proof -
  let ?cands = "List.map_filter (pass_candidate cv img) (strategies (shape1 img))"
  from assms(1) obtain c cs where cc: "?cands = c # cs"
    by (cases ?cands) (auto simp: find_graph_area_def)
  define best where "best = cluster (max_by score c cs)"
  have "max_by score c cs \<in> set ?cands" unfolding cc by (rule max_by_in_set)
  then obtain s where "pass_candidate cv img s = Some (max_by score c cs)"
    by (auto simp: List.map_filter_def)
  then have pl: "plausible (shape0 img) best"
    unfolding best_def by (rule pass_candidate_plausible)
  then have ne: "best \<noteq> []" by (simp add: plausible_def)
  then have hb: "hd best # tl best = best" by simp
  from assms cc have t: "max_line_y = fold min (tl best) (hd best)"
    and z: "zero_line_y = fold max (tl best) (hd best)"
    by (simp_all add: find_graph_area_def Let_def best_def)
  have tin: "max_line_y \<in> set best"
    using fold_min_in_set [of "tl best" "hd best"] hb t by simp
  have h0: "0 \<le> shape0 img" by (simp add: shape0_def)
  from pl tin have "real_of_int (shape0 img) * 0.10 < of_int max_line_y"
    by (simp add: plausible_def)
  moreover have "0 \<le> real_of_int (shape0 img) * 0.10" using h0 by simp
  ultimately have "0 < real_of_int max_line_y" by linarith
  then have p1: "0 < max_line_y" by simp
  from pl obtain x where x: "x \<in> set best" "real_of_int x < of_int (shape0 img) * 0.98"
    by (auto simp: plausible_def)
  have "max_line_y \<le> x" using fold_min_le [of x "hd best" "tl best"] hb x(1) t by simp
  with x(2) have "real_of_int max_line_y < of_int (shape0 img) * 0.98" by linarith
  moreover have "real_of_int (shape0 img) * 0.98 \<le> of_int (shape0 img)" using h0 by simp
  ultimately have "real_of_int max_line_y < of_int (shape0 img)" by linarith
  then have p3: "max_line_y < shape0 img" by simp
  have "max_line_y \<le> zero_line_y"
    using fold_max_ge [of max_line_y "hd best" "tl best"] hb tin z by simp
  with p1 p3 show ?thesis by simp
qed

lemma edge_grid:
  "find_graph_area edge_cv edge_img =
     \<lparr>grid_y_top = Some 30, grid_y_bottom = Some 190, lines = [30, 110, 190], avg_delta = 80\<rparr>"
proof -
  have fs: "final_score 200 [30, 110, 190] = 540"
    by (simp add: final_score_def base_score_def np_diff_def np_std_def np_mean_def
        location_multiplier_def)
  have pc: "pass_clusters 200 [30, 110, 190] = [[30, 110, 190]]"
    by (simp add: pass_clusters_def upt_rec Let_def)
  have "\<And>s. pass_candidate edge_cv edge_img s =
          Some \<lparr>cluster = [30, 110, 190], score = 540, pass_name = strategy_name s\<rparr>"
    by (simp add: pass_candidate_def edge_cv_def shot_cv_def edge_img_def shape0_def pc fs)
  then show ?thesis
    by (simp add: find_graph_area_def strategies_def List.map_filter_def np_median_def np_diff_def)
qed

lemma py_slice_rows:
  assumes "0 \<le> t" "t \<le> b" "b \<le> int (length xs)"
  shows "py_slice t b xs = take (nat (b - t)) (drop (nat t) xs)"
proof -
  from assms have "slice_index t (length xs) = nat t" "slice_index b (length xs) = nat b"
    by (auto simp: slice_index_def)
  moreover from assms have "nat b - nat t = nat (b - t)" by linarith
  ultimately show ?thesis by (simp add: py_slice_def)
qed

lemma py_slice_full_width: "0 \<le> w \<Longrightarrow> py_slice 0 w row = take (nat w) row"
  by (simp add: py_slice_def slice_index_def min_def)

lemma shape1_replicate: "0 < n \<Longrightarrow> shape1 (replicate n row) = int (length row)"
  by (cases n) (simp_all add: shape1_def)

lemma find_graph_area_cong:
  assumes "grid_horizontal cv' img = grid_horizontal cv img"
  shows "find_graph_area cv' img = find_graph_area cv img"
proof -
  have "pass_candidate cv' img = pass_candidate cv img"
    by (rule ext) (simp add: pass_candidate_def assms)
  then show ?thesis by (simp add: find_graph_area_def)
qed

lemma detect_bars_positions_cong:
  assumes "contours_ios cv' c = contours_ios cv c" "contours_dark cv' c = contours_dark cv c"
    "contours_light cv' c = contours_light cv c"
  shows "detect_bars_positions cv' c = detect_bars_positions cv c"
proof -
  have "detect_ios_bars cv' c = detect_ios_bars cv c"
    by (simp add: detect_ios_bars_def assms)
  moreover have "detect_android_dark_bars cv' c = detect_android_dark_bars cv c"
    by (simp add: detect_android_dark_bars_def dark_candidates_def dark_suspect_contours_def
        dark_items_def assms)
  moreover have "detect_android_light_bars cv' c = detect_android_light_bars cv c"
    by (simp add: detect_android_light_bars_def assms)
  ultimately show ?thesis by (simp add: detect_bars_positions_def Let_def)
qed

text \<open>
  Claim C8, as stated, fails near the image border: on a 200-row image whose detected grid
  runs from y = 30 to y = 190 the top edge is 0, not 30 - 50, and the bottom edge is 200,
  not 190 + 100.
\<close>

theorem crop_window_unclamped_counterexample:
  "grid_y_top (find_graph_area edge_cv edge_img) = Some 30
   \<and> grid_y_bottom (find_graph_area edge_cv edge_img) = Some 190
   \<and> crop_top 30 \<noteq> 30 - 50
   \<and> crop_bottom (shape0 edge_img) 190 \<noteq> 190 + 100"
proof -
  have "grid_y_top (find_graph_area edge_cv edge_img) = Some 30"
    "grid_y_bottom (find_graph_area edge_cv edge_img) = Some 190"
    by (simp_all add: edge_grid)
  moreover have "crop_top 30 \<noteq> 30 - 50" "crop_bottom (shape0 edge_img) 190 \<noteq> 190 + 100"
    by (simp_all add: crop_top_def crop_bottom_def shape0_def edge_img_def)
  ultimately show ?thesis by simp
qed

text \<open>
  Claim C8, amended.  After successful grid detection the crop window has top edge
  \<open>max 0 (max_line_y - 50)\<close> and bottom edge \<open>min image_height (zero_line_y + 100)\<close>;
  these are \<open>max_line_y - 50\<close> and \<open>zero_line_y + 100\<close> whenever those lie inside the
  image.  The window lies inside the image, the cropped image consists of exactly the
  rows from the top edge up to the bottom edge at full width, and it is this cropped
  image that both the semantic label source and the bar detector are given: the result
  depends on them only through what they return for it.
\<close>

theorem crop_window_clamped:
  assumes "load_image fs image_path = Some img"
      and "grid_y_top (find_graph_area cv img) = Some max_line_y"
      and "grid_y_bottom (find_graph_area cv img) = Some zero_line_y"
  shows "crop_top max_line_y = max 0 (max_line_y - 50)
     \<and> crop_bottom (shape0 img) zero_line_y = min (shape0 img) (zero_line_y + 100)
     \<and> (50 \<le> max_line_y \<longrightarrow> crop_top max_line_y = max_line_y - 50)
     \<and> (zero_line_y + 100 \<le> shape0 img \<longrightarrow>
          crop_bottom (shape0 img) zero_line_y = zero_line_y + 100)
     \<and> 0 \<le> crop_top max_line_y
     \<and> crop_top max_line_y \<le> crop_bottom (shape0 img) zero_line_y
     \<and> crop_bottom (shape0 img) zero_line_y \<le> shape0 img
     \<and> crop img (crop_top max_line_y) (crop_bottom (shape0 img) zero_line_y) 0 (shape1 img)
         = map (take (nat (shape1 img)))
             (take (nat (crop_bottom (shape0 img) zero_line_y - crop_top max_line_y))
                (drop (nat (crop_top max_line_y)) img))
     \<and> (\<forall>cv'. grid_horizontal cv' img = grid_horizontal cv img
           \<and> extract_graph_data cv'
                (crop img (crop_top max_line_y) (crop_bottom (shape0 img) zero_line_y) 0 (shape1 img))
             = extract_graph_data cv
                (crop img (crop_top max_line_y) (crop_bottom (shape0 img) zero_line_y) 0 (shape1 img))
           \<and> contours_ios cv'
                (crop img (crop_top max_line_y) (crop_bottom (shape0 img) zero_line_y) 0 (shape1 img))
             = contours_ios cv
                (crop img (crop_top max_line_y) (crop_bottom (shape0 img) zero_line_y) 0 (shape1 img))
           \<and> contours_dark cv'
                (crop img (crop_top max_line_y) (crop_bottom (shape0 img) zero_line_y) 0 (shape1 img))
             = contours_dark cv
                (crop img (crop_top max_line_y) (crop_bottom (shape0 img) zero_line_y) 0 (shape1 img))
           \<and> contours_light cv'
                (crop img (crop_top max_line_y) (crop_bottom (shape0 img) zero_line_y) 0 (shape1 img))
             = contours_light cv
                (crop img (crop_top max_line_y) (crop_bottom (shape0 img) zero_line_y) 0 (shape1 img))
           \<longrightarrow> calculate_minutes_for_day cv' fs image_path d
                 = calculate_minutes_for_day cv fs image_path d)"
proof -
  let ?ct = "crop_top max_line_y"
  let ?cb = "crop_bottom (shape0 img) zero_line_y"
  let ?c = "crop img ?ct ?cb 0 (shape1 img)"
  from find_graph_area_bounds [OF assms(2,3)]
  have b: "0 < max_line_y" "max_line_y \<le> zero_line_y" "max_line_y < shape0 img" by simp_all
  have g: "0 \<le> ?ct" "?ct \<le> ?cb" "?cb \<le> shape0 img"
    using b by (simp_all add: crop_top_def crop_bottom_def)
  have w: "0 \<le> shape1 img" by (simp add: shape1_def split: list.splits)
  have rows: "py_slice ?ct ?cb img = take (nat (?cb - ?ct)) (drop (nat ?ct) img)"
    using g by (intro py_slice_rows) (simp_all add: shape0_def)
  have cols: "py_slice 0 (shape1 img) = take (nat (shape1 img))"
    using w by (intro ext) (rule py_slice_full_width)
  have c: "?c = map (take (nat (shape1 img))) (take (nat (?cb - ?ct)) (drop (nat ?ct) img))"
    by (simp add: crop_def rows cols)
  have ind: "calculate_minutes_for_day cv' fs image_path d
                 = calculate_minutes_for_day cv fs image_path d"
    if h: "grid_horizontal cv' img = grid_horizontal cv img"
       "extract_graph_data cv' ?c = extract_graph_data cv ?c"
       "contours_ios cv' ?c = contours_ios cv ?c"
       "contours_dark cv' ?c = contours_dark cv ?c"
       "contours_light cv' ?c = contours_light cv ?c" for cv'
  proof -
    have fg: "find_graph_area cv' img = find_graph_area cv img"
      using h(1) by (rule find_graph_area_cong)
    have db: "detect_bars_positions cv' ?c = detect_bars_positions cv ?c"
      using h(3,4,5) by (rule detect_bars_positions_cong)
    show ?thesis
      by (simp add: calculate_minutes_for_day_def assms fg db h(2) Let_def split: sum.splits)
  qed
  have a: "?ct = max 0 (max_line_y - 50)" "?cb = min (shape0 img) (zero_line_y + 100)"
    by (simp_all add: crop_top_def crop_bottom_def)
  have a2: "50 \<le> max_line_y \<longrightarrow> ?ct = max_line_y - 50"
    "zero_line_y + 100 \<le> shape0 img \<longrightarrow> ?cb = zero_line_y + 100"
    by (simp_all add: crop_top_def crop_bottom_def)
  from a a2 g c ind show ?thesis by blast
qed

theorem crop_window_clamped_witness:
  "crop_top 100 = 50 \<and> crop_bottom (shape0 shot_img) 500 = 600
   \<and> crop shot_img 50 600 0 (shape1 shot_img) = replicate 550 (replicate 400 (0, 0, 0))
   \<and> crop_top 30 = 0 \<and> crop_bottom (shape0 edge_img) 190 = 200"
proof -
  have l: "load_image shot_fs ''shot.png'' = Some shot_img"
    by (simp add: load_image_def shot_fs_def)
  have h: "(50::int) \<le> 100" "500 + 100 \<le> shape0 shot_img"
    by (simp_all add: shape0_def shot_img_def)
  have g: "grid_y_top (find_graph_area shot_cv shot_img) = Some 100"
    "grid_y_bottom (find_graph_area shot_cv shot_img) = Some 500"
    by (simp_all add: shot_grid)
  note t = crop_window_clamped [OF l g, of "''Fri''"]
  have t': "crop_top 100 = 100 - 50 \<and> crop_bottom (shape0 shot_img) 500 = 500 + 100
    \<and> crop shot_img (crop_top 100) (crop_bottom (shape0 shot_img) 500) 0 (shape1 shot_img)
         = map (take (nat (shape1 shot_img)))
             (take (nat (crop_bottom (shape0 shot_img) 500 - crop_top 100))
                (drop (nat (crop_top 100)) shot_img))"
    using t h by blast
  then have c: "crop_top 100 = 50" "crop_bottom (shape0 shot_img) 500 = 600" by simp_all
  from t' have "crop shot_img 50 600 0 (shape1 shot_img)
      = map (take (nat (shape1 shot_img))) (take (nat (600 - 50)) (drop (nat 50) shot_img))"
    unfolding c by simp
  then have r: "crop shot_img 50 600 0 (shape1 shot_img) = replicate 550 (replicate 400 (0, 0, 0))"
    by (simp add: shot_img_def shape1_replicate)
  have e: "crop_top 30 = 0" "crop_bottom (shape0 edge_img) 190 = 200"
    by (simp_all add: crop_top_def crop_bottom_def shape0_def edge_img_def)
  from c r e show ?thesis by simp
qed

section \<open>The fallback chain of the bar detector\<close>

lemma detect_ios_bars_length:
  "length (detect_ios_bars cv img) =
     (if 3 \<le> length (filter (\<lambda>c. 300 < contour_area c) (contours_ios cv img))
      then length (filter (\<lambda>c. 300 < contour_area c) (contours_ios cv img)) else 0)"
  by (simp add: detect_ios_bars_def process_contours_to_positions_def Let_def)

lemma detect_android_light_bars_length:
  "length (detect_android_light_bars cv img) = 0 \<or> 3 \<le> length (detect_android_light_bars cv img)"
  by (simp add: detect_android_light_bars_def Let_def)

lemma detect_ios_bars_all_or_nothing:
  "detect_ios_bars cv img = [] \<or> 3 \<le> length (detect_ios_bars cv img)"
  using detect_ios_bars_length [of cv img] by (auto split: if_splits)

text \<open>
  Claim C4.  The variants are tried in the order bright-bar (iOS), dark theme, light
  theme.  The bright-bar positions are used exactly when that variant is not empty, which
  needs at least three contours of area above 300, and then no other variant is invoked.
  Otherwise the dark-theme positions are used when there are at least three of them, and
  the light-theme variant is not invoked.  Otherwise the light-theme positions are used
  when that variant is not empty, which needs at least three domes.  When all three fail
  the result is the empty list with detection type \<open>''None''\<close>.  In each case the
  returned positions are those of the chosen variant, sorted by centre x, without the raw
  contour.
\<close>

theorem variant_chain_order:
  "(detect_ios_bars cv img \<noteq> [] \<longrightarrow>
      3 \<le> length (filter (\<lambda>c. 300 < contour_area c) (contours_ios cv img))
      \<and> detect_bars_positions cv img =
          \<lparr>cleaned_final_positions =
             map bar_position.truncate (sort_key center_x (detect_ios_bars cv img)),
           detection_type = ''iOS'', invoked = [''detect_ios_bars'']\<rparr>)
   \<and> (detect_ios_bars cv img = [] \<and> 3 \<le> length (fst (detect_android_dark_bars cv img)) \<longrightarrow>
      detect_bars_positions cv img =
          \<lparr>cleaned_final_positions =
             map bar_position.truncate
               (sort_key center_x (fst (detect_android_dark_bars cv img))),
           detection_type = ''Android'',
           invoked = [''detect_ios_bars'', ''detect_android_dark_bars'']\<rparr>)
   \<and> (detect_ios_bars cv img = [] \<and> length (fst (detect_android_dark_bars cv img)) < 3
        \<and> detect_android_light_bars cv img \<noteq> [] \<longrightarrow>
      3 \<le> length (detect_android_light_bars cv img)
      \<and> detect_bars_positions cv img =
          \<lparr>cleaned_final_positions =
             map bar_position.truncate (sort_key center_x (detect_android_light_bars cv img)),
           detection_type = ''Android-Light'',
           invoked = [''detect_ios_bars'', ''detect_android_dark_bars'',
                      ''detect_android_light_bars'']\<rparr>)
   \<and> (detect_ios_bars cv img = [] \<and> length (fst (detect_android_dark_bars cv img)) < 3
        \<and> detect_android_light_bars cv img = [] \<longrightarrow>
      detect_bars_positions cv img =
          \<lparr>cleaned_final_positions = [], detection_type = ''None'',
           invoked = [''detect_ios_bars'', ''detect_android_dark_bars'',
                      ''detect_android_light_bars'']\<rparr>)"
proof (intro conjI impI)
  assume a: "detect_ios_bars cv img \<noteq> []"
  then show "3 \<le> length (filter (\<lambda>c. 300 < contour_area c) (contours_ios cv img))"
    using detect_ios_bars_length [of cv img] by (auto split: if_splits)
  from a show "detect_bars_positions cv img =
          \<lparr>cleaned_final_positions =
             map bar_position.truncate (sort_key center_x (detect_ios_bars cv img)),
           detection_type = ''iOS'', invoked = [''detect_ios_bars'']\<rparr>"
    by (simp add: detect_bars_positions_def draw_final_bars_def Let_def)
next
  assume "detect_ios_bars cv img = [] \<and> 3 \<le> length (fst (detect_android_dark_bars cv img))"
  then show "detect_bars_positions cv img =
          \<lparr>cleaned_final_positions =
             map bar_position.truncate
               (sort_key center_x (fst (detect_android_dark_bars cv img))),
           detection_type = ''Android'',
           invoked = [''detect_ios_bars'', ''detect_android_dark_bars'']\<rparr>"
    by (simp add: detect_bars_positions_def draw_final_bars_def Let_def)
next
  assume a: "detect_ios_bars cv img = [] \<and> length (fst (detect_android_dark_bars cv img)) < 3
        \<and> detect_android_light_bars cv img \<noteq> []"
  then show "3 \<le> length (detect_android_light_bars cv img)"
    using detect_android_light_bars_length [of cv img] by auto
  from a show "detect_bars_positions cv img =
          \<lparr>cleaned_final_positions =
             map bar_position.truncate (sort_key center_x (detect_android_light_bars cv img)),
           detection_type = ''Android-Light'',
           invoked = [''detect_ios_bars'', ''detect_android_dark_bars'',
                      ''detect_android_light_bars'']\<rparr>"
    by (simp add: detect_bars_positions_def draw_final_bars_def Let_def)
next
  assume "detect_ios_bars cv img = [] \<and> length (fst (detect_android_dark_bars cv img)) < 3
        \<and> detect_android_light_bars cv img = []"
  then show "detect_bars_positions cv img =
          \<lparr>cleaned_final_positions = [], detection_type = ''None'',
           invoked = [''detect_ios_bars'', ''detect_android_dark_bars'',
                      ''detect_android_light_bars'']\<rparr>"
    by (simp add: detect_bars_positions_def draw_final_bars_def Let_def)
qed

text \<open>
  Claim C9.  For every image the list of positions \<^verbatim>\<open>detect_bars_positions\<close> returns is
  empty or has at least three elements, never exactly one or two.
\<close>

theorem bar_count_all_or_nothing:
  "length (cleaned_final_positions (detect_bars_positions cv img)) = 0
   \<or> 3 \<le> length (cleaned_final_positions (detect_bars_positions cv img))"
proof -
  have "length (cleaned_final_positions (detect_bars_positions cv img)) =
      (if detect_ios_bars cv img \<noteq> [] then length (detect_ios_bars cv img)
       else if 3 \<le> length (fst (detect_android_dark_bars cv img))
            then length (fst (detect_android_dark_bars cv img))
            else length (detect_android_light_bars cv img))"
    by (simp add: detect_bars_positions_def draw_final_bars_def Let_def)
  then show ?thesis
    using detect_ios_bars_all_or_nothing [of cv img] detect_android_light_bars_length [of cv img]
    by (auto split: if_splits)
qed

section \<open>The reclaim pass of the dark-theme variant\<close>

lemma item_cnt_dark_item_of: "item_cnt (dark_item_of w c) = c"
  by (simp add: dark_item_of_def split: prod.splits)

lemma dark_items_form:
  "it \<in> set (dark_items cv img) \<Longrightarrow> it = dark_item_of (shape1 img) (item_cnt it)"
  by (auto simp: dark_items_def Let_def item_cnt_dark_item_of)

lemma dark_items_cnt_inj:
  assumes "a \<in> set (dark_items cv img)" "b \<in> set (dark_items cv img)" "item_cnt a = item_cnt b"
  shows "a = b"
  using dark_items_form [OF assms(1)] dark_items_form [OF assms(2)] assms(3) by simp

lemma group_rows_members:
  "set (concat (group_rows current_row cs)) = set current_row \<union> set cs"
  by (induction current_row cs rule: group_rows.induct) auto

lemma group_rows_nonempty:
  "current_row \<noteq> [] \<Longrightarrow> r \<in> set (group_rows current_row cs) \<Longrightarrow> r \<noteq> []"
  by (induction current_row cs rule: group_rows.induct) (auto split: if_splits)

lemma group_rows_not_Nil: "group_rows current_row cs \<noteq> []"
  by (induction current_row cs rule: group_rows.induct) auto

lemma max_by_member: "max_by f x xs \<in> set (x # xs)"
  by (induction xs arbitrary: x) auto

lemma dark_best_row_props:
  assumes "best_candidates \<noteq> []"
  shows "dark_best_row best_candidates \<noteq> []
         \<and> set (dark_best_row best_candidates) \<subseteq> set best_candidates"
proof -
  have "length (sort_key bottom best_candidates) = length best_candidates" by simp
  with assms have "sort_key bottom best_candidates \<noteq> []" by (metis length_0_conv)
  then obtain c cs where s: "sort_key bottom best_candidates = c # cs"
    by (cases "sort_key bottom best_candidates") auto
  let ?rows = "group_rows [c] cs"
  obtain r rs where rows: "?rows = r # rs"
    using group_rows_not_Nil [of "[c]" cs] by (cases ?rows) auto
  have b: "dark_best_row best_candidates = max_by (\<lambda>r. sum_list (map width r)) r rs"
    by (simp add: dark_best_row_def s rows py_max_key_def)
  have m: "dark_best_row best_candidates \<in> set ?rows"
    unfolding b rows by (rule max_by_member)
  then have "dark_best_row best_candidates \<noteq> []"
    using group_rows_nonempty [of "[c]" _ cs] by simp
  moreover have "set (dark_best_row best_candidates) \<subseteq> set (concat ?rows)"
    using m by auto
  then have "set (dark_best_row best_candidates) \<subseteq> set best_candidates"
    unfolding group_rows_members using s
    by (metis list.simps(15) set_sort set_append append_Cons append_Nil empty_set sup_bot.right_neutral
        insert_is_Un sup_commute)
  ultimately show ?thesis by simp
qed

lemma detect_android_dark_bars_reached:
  assumes "3 \<le> length (dark_candidates cv img)"
  shows "detect_android_dark_bars cv img =
           process_contours_to_positions
             (dark_final_contours (dark_best_row (dark_candidates cv img))
                (dark_suspect_contours cv img)) ''Android''
             (reclaimed_contours_data (dark_best_row (dark_candidates cv img))
                (dark_suspect_contours cv img))"
proof -
  from assms have "dark_candidates cv img \<noteq> []" by auto
  from dark_best_row_props [OF this] have "dark_best_row (dark_candidates cv img) \<noteq> []" by simp
  with assms show ?thesis by (simp add: detect_android_dark_bars_def Let_def)
qed

lemma positions_cnt:
  "map cnt (fst (process_contours_to_positions cs t rs)) = cs"
  by (simp add: process_contours_to_positions_def Let_def split_def comp_def)

text \<open>
  Claim C5.  When the dark-theme variant reaches its reclaim pass (at least three
  candidates), a suspect contour is reclaimed, and so appears among the final contours,
  if and only if its width is within \<open>max 12 (0.5 * median)\<close> of the median width of the
  baseline row and its bottom is within 30 pixels of the row's median baseline.  A suspect
  whose width deviates by more than that tolerance is never reclaimed, whatever its
  baseline.
\<close>

theorem reclaim_gate:
  assumes "3 \<le> length (dark_candidates cv img)"
      and "s \<in> set (dark_suspect_contours cv img)"
      and "best_row = dark_best_row (dark_candidates cv img)"
      and "median_width = np_median (map (\<lambda>c. real_of_int (width c)) best_row)"
      and "baseline_y = np_median (map (\<lambda>c. real_of_int (bottom c)) best_row)"
  shows "(item_cnt s \<in> snd (detect_android_dark_bars cv img)
           \<longleftrightarrow> \<bar>of_int (width s) - median_width\<bar> \<le> max 12 (0.5 * median_width)
               \<and> \<bar>of_int (bottom s) - baseline_y\<bar> \<le> 30)
       \<and> (item_cnt s \<in> cnt ` set (fst (detect_android_dark_bars cv img))
           \<longleftrightarrow> \<bar>of_int (width s) - median_width\<bar> \<le> max 12 (0.5 * median_width)
               \<and> \<bar>of_int (bottom s) - baseline_y\<bar> \<le> 30)
       \<and> (max 12 (0.5 * median_width) < \<bar>of_int (width s) - median_width\<bar> \<longrightarrow>
             item_cnt s \<notin> snd (detect_android_dark_bars cv img)
             \<and> item_cnt s \<notin> cnt ` set (fst (detect_android_dark_bars cv img)))"
proof -
  let ?sus = "dark_suspect_contours cv img"
  let ?rec = "reclaimed_contours_data best_row ?sus"
  let ?ok = "\<bar>of_int (width s) - median_width\<bar> \<le> max 12 (0.5 * median_width)
               \<and> \<bar>of_int (bottom s) - baseline_y\<bar> \<le> 30"
  have mw: "median_width_of best_row = median_width" "baseline_y_of best_row = baseline_y"
    by (simp_all add: median_width_of_def baseline_y_of_def assms)
  have d: "detect_android_dark_bars cv img =
      process_contours_to_positions (dark_final_contours best_row ?sus) ''Android'' ?rec"
    using detect_android_dark_bars_reached [OF assms(1)] assms(3) by simp
  have s_item: "s \<in> set (dark_items cv img)" "reason s \<noteq> None"
    using assms(2) by (simp_all add: dark_suspect_contours_def)
  have rec_sub: "set ?rec \<subseteq> set (dark_items cv img)"
    by (auto simp: reclaimed_contours_data_def dark_suspect_contours_def)
  have in_rec: "s \<in> set ?rec \<longleftrightarrow> ?ok"
    using assms(2) by (simp add: reclaimed_contours_data_def width_ok_def baseline_ok_def mw
        mult.commute)
  have cnt_rec: "item_cnt s \<in> item_cnt ` set ?rec \<longleftrightarrow> s \<in> set ?rec"
  proof
    assume "item_cnt s \<in> item_cnt ` set ?rec"
    then obtain r where r: "r \<in> set ?rec" "item_cnt r = item_cnt s" by auto
    with rec_sub have "r \<in> set (dark_items cv img)" by auto
    from dark_items_cnt_inj [OF this s_item(1) r(2)] r(1) show "s \<in> set ?rec" by simp
  qed auto
  have snd_eq: "snd (detect_android_dark_bars cv img) = item_cnt ` set ?rec"
    by (simp add: d process_contours_to_positions_def Let_def)
  from assms(1) have "dark_candidates cv img \<noteq> []" by auto
  from dark_best_row_props [OF this]
  have row_sub: "set best_row \<subseteq> set (dark_candidates cv img)"
    using assms(3) by simp
  have not_row: "item_cnt s \<notin> item_cnt ` set (filter (width_ok (median_width_of best_row)) best_row)"
  proof
    assume "item_cnt s \<in> item_cnt ` set (filter (width_ok (median_width_of best_row)) best_row)"
    then obtain r where r: "r \<in> set best_row" "item_cnt r = item_cnt s" by auto
    with row_sub have rc: "r \<in> set (dark_candidates cv img)" by auto
    then have "r \<in> set (dark_items cv img)" "reason r = None"
      by (simp_all add: dark_candidates_def)
    from dark_items_cnt_inj [OF this(1) s_item(1) r(2)] this(2) s_item(2) show False by simp
  qed
  have "cnt ` set (fst (detect_android_dark_bars cv img)) = set (dark_final_contours best_row ?sus)"
    unfolding d using positions_cnt [of "dark_final_contours best_row ?sus" "''Android''" ?rec]
    by (metis set_map)
  then have fst_eq: "item_cnt s \<in> cnt ` set (fst (detect_android_dark_bars cv img))
      \<longleftrightarrow> item_cnt s \<in> item_cnt ` set ?rec"
    using not_row by (auto simp: dark_final_contours_def)
  from snd_eq fst_eq cnt_rec in_rec show ?thesis by auto
qed

section \<open>The detector variants on concrete contours\<close>

lemma dark_shape: "shape0 dark_img = 600" "shape1 dark_img = 400"
  by (simp_all add: shape0_def dark_img_def shape1_replicate)

lemma dark_items_value:
  "dark_items dark_cv dark_img =
     [dark_item_of 400 bar_a, dark_item_of 400 stub, dark_item_of 400 bar_b,
      dark_item_of 400 banner, dark_item_of 400 bar_c, dark_item_of 400 stray]"
  by (simp add: dark_items_def dark_shape dark_cv_def drop_frame_def np_argmax_def
      bar_a_def stub_def bar_b_def banner_def bar_c_def stray_def)

lemma dark_reasons:
  "reason (dark_item_of 400 bar_a) = None" "reason (dark_item_of 400 bar_b) = None"
  "reason (dark_item_of 400 bar_c) = None" "reason (dark_item_of 400 stub) = Some ''Size''"
  "reason (dark_item_of 400 banner) = Some ''Ratio''"
  "reason (dark_item_of 400 stray) = Some ''Size''"
  by (simp_all add: dark_item_of_def suspect_reason_def
      bar_a_def stub_def bar_b_def banner_def bar_c_def stray_def)

lemma dark_candidates_value:
  "dark_candidates dark_cv dark_img =
       [dark_item_of 400 bar_a, dark_item_of 400 bar_b, dark_item_of 400 bar_c]"
  by (simp add: dark_candidates_def dark_items_value dark_reasons)

lemma dark_suspects_value:
  "dark_suspect_contours dark_cv dark_img = [dark_item_of 400 stub, dark_item_of 400 banner, dark_item_of 400 stray]"
  by (simp add: dark_suspect_contours_def dark_items_value dark_reasons)

lemma dark_geometry:
  "bottom (dark_item_of 400 bar_a) = 300" "width (dark_item_of 400 bar_a) = 20"
  "bottom (dark_item_of 400 bar_b) = 300" "width (dark_item_of 400 bar_b) = 22"
  "bottom (dark_item_of 400 bar_c) = 300" "width (dark_item_of 400 bar_c) = 20"
  "bottom (dark_item_of 400 stub) = 300" "width (dark_item_of 400 stub) = 20"
  "bottom (dark_item_of 400 banner) = 300" "width (dark_item_of 400 banner) = 300"
  "bottom (dark_item_of 400 stray) = 104" "width (dark_item_of 400 stray) = 20"
  by (simp_all add: dark_item_of_def bar_a_def stub_def bar_b_def banner_def bar_c_def stray_def)

lemma dark_row_value:
  "dark_best_row [dark_item_of 400 bar_a, dark_item_of 400 bar_b, dark_item_of 400 bar_c] =
     [dark_item_of 400 bar_a, dark_item_of 400 bar_b, dark_item_of 400 bar_c]"
  by (simp add: dark_best_row_def dark_geometry py_max_key_def)

lemma dark_medians:
  "np_median (map (\<lambda>c. real_of_int (width c))
       [dark_item_of 400 bar_a, dark_item_of 400 bar_b, dark_item_of 400 bar_c]) = 20"
  "np_median (map (\<lambda>c. real_of_int (bottom c))
       [dark_item_of 400 bar_a, dark_item_of 400 bar_b, dark_item_of 400 bar_c]) = 300"
  by (simp_all add: np_median_def dark_geometry)

lemma dark_detect_value:
  "map cnt (fst (detect_android_dark_bars dark_cv dark_img)) = [bar_a, bar_b, bar_c, stub]"
  "snd (detect_android_dark_bars dark_cv dark_img) = {stub}"
proof -
  have l: "3 \<le> length (dark_candidates dark_cv dark_img)"
    by (simp add: dark_candidates_value)
  have r: "reclaimed_contours_data
       [dark_item_of 400 bar_a, dark_item_of 400 bar_b, dark_item_of 400 bar_c]
             [dark_item_of 400 stub, dark_item_of 400 banner, dark_item_of 400 stray] = [dark_item_of 400 stub]"
    using dark_medians
    by (simp add: reclaimed_contours_data_def width_ok_def baseline_ok_def median_width_of_def
        baseline_y_of_def dark_geometry)
  have f: "dark_final_contours
       [dark_item_of 400 bar_a, dark_item_of 400 bar_b, dark_item_of 400 bar_c]
             [dark_item_of 400 stub, dark_item_of 400 banner, dark_item_of 400 stray] = [bar_a, bar_b, bar_c, stub]"
    using dark_medians r
    by (simp add: dark_final_contours_def width_ok_def median_width_of_def dark_geometry
        item_cnt_dark_item_of)
  show "map cnt (fst (detect_android_dark_bars dark_cv dark_img)) = [bar_a, bar_b, bar_c, stub]"
    unfolding detect_android_dark_bars_reached [OF l] positions_cnt
    using f by (simp add: dark_candidates_value dark_suspects_value dark_row_value)
  show "snd (detect_android_dark_bars dark_cv dark_img) = {stub}"
    unfolding detect_android_dark_bars_reached [OF l]
    using r by (simp add: dark_candidates_value dark_suspects_value dark_row_value
        process_contours_to_positions_def item_cnt_dark_item_of)
qed

lemma light_detect_value:
  "map cnt (detect_android_light_bars light_cv dark_img) = [dome_a, dome_c, dome_b]"
  by (simp add: detect_android_light_bars_def dark_shape light_cv_def dark_cv_def drop_frame_def
      np_argmax_def is_dome_def dome_of_def dome_a_def dome_b_def dome_c_def)

lemma light_dark_fails: "detect_android_dark_bars light_cv dark_img = ([], {})"
proof -
  have "dark_items light_cv dark_img = [dark_item_of 400 bar_a, dark_item_of 400 stub]"
    by (simp add: dark_items_def dark_shape light_cv_def dark_cv_def drop_frame_def np_argmax_def
        bar_a_def stub_def)
  then show ?thesis
    by (simp add: detect_android_dark_bars_def dark_candidates_def dark_reasons)
qed

lemma no_ios: "detect_ios_bars dark_cv img = []" "detect_ios_bars light_cv img = []"
  "detect_ios_bars blank_cv img = []"
  by (simp_all add: detect_ios_bars_def dark_cv_def light_cv_def blank_cv_def)

lemma blank_fails:
  "detect_android_dark_bars blank_cv img = ([], {})" "detect_android_light_bars blank_cv img = []"
  by (simp_all add: detect_android_dark_bars_def dark_candidates_def dark_items_def
      detect_android_light_bars_def drop_frame_def blank_cv_def dark_cv_def)

theorem variant_chain_order_witness:
  "invoked (detect_bars_positions shot_cv shot_img) = [''detect_ios_bars'']
   \<and> detection_type (detect_bars_positions shot_cv shot_img) = ''iOS''
   \<and> invoked (detect_bars_positions dark_cv dark_img)
       = [''detect_ios_bars'', ''detect_android_dark_bars'']
   \<and> detection_type (detect_bars_positions dark_cv dark_img) = ''Android''
   \<and> detection_type (detect_bars_positions light_cv dark_img) = ''Android-Light''
   \<and> detect_bars_positions blank_cv dark_img =
        \<lparr>cleaned_final_positions = [], detection_type = ''None'',
         invoked = [''detect_ios_bars'', ''detect_android_dark_bars'',
                    ''detect_android_light_bars'']\<rparr>"
proof -
  have i: "detect_ios_bars shot_cv shot_img \<noteq> []"
    by (simp add: detect_ios_bars_def shot_cv_def shot_contours_def
        process_contours_to_positions_def)
  have d: "3 \<le> length (fst (detect_android_dark_bars dark_cv dark_img))"
    using dark_detect_value(1) by (metis length_map length_Cons list.size(3) numeral_3_eq_3
        le_add2 plus_1_eq_Suc)
  have l: "length (fst (detect_android_dark_bars light_cv dark_img)) < 3"
    "detect_android_light_bars light_cv dark_img \<noteq> []"
    using light_detect_value by (auto simp: light_dark_fails)
  have b: "length (fst (detect_android_dark_bars blank_cv dark_img)) < 3"
    "detect_android_light_bars blank_cv dark_img = []"
    by (simp_all add: blank_fails)
  from variant_chain_order [of shot_cv shot_img] i
  have 1: "invoked (detect_bars_positions shot_cv shot_img) = [''detect_ios_bars'']"
    "detection_type (detect_bars_positions shot_cv shot_img) = ''iOS''"
    by simp_all
  from variant_chain_order [of dark_cv dark_img] d no_ios(1) [of dark_img]
  have 2: "invoked (detect_bars_positions dark_cv dark_img)
       = [''detect_ios_bars'', ''detect_android_dark_bars'']"
    "detection_type (detect_bars_positions dark_cv dark_img) = ''Android''"
    by simp_all
  from variant_chain_order [of light_cv dark_img] l no_ios(2) [of dark_img]
  have 3: "detection_type (detect_bars_positions light_cv dark_img) = ''Android-Light''"
    by simp
  from variant_chain_order [of blank_cv dark_img] b no_ios(3) [of dark_img]
  have 4: "detect_bars_positions blank_cv dark_img =
        \<lparr>cleaned_final_positions = [], detection_type = ''None'',
         invoked = [''detect_ios_bars'', ''detect_android_dark_bars'',
                    ''detect_android_light_bars'']\<rparr>"
    by simp
  from 1 2 3 4 show ?thesis by simp
qed

theorem bar_count_all_or_nothing_witness:
  "length (cleaned_final_positions (detect_bars_positions light_cv dark_img)) \<noteq> 1
   \<and> length (cleaned_final_positions (detect_bars_positions light_cv dark_img)) \<noteq> 2
   \<and> length (cleaned_final_positions (detect_bars_positions blank_cv dark_img)) = 0"
proof -
  have "length (cleaned_final_positions (detect_bars_positions blank_cv dark_img)) < 3"
    by (simp add: detect_bars_positions_def no_ios blank_fails draw_final_bars_def)
  with bar_count_all_or_nothing [of blank_cv dark_img]
  have "length (cleaned_final_positions (detect_bars_positions blank_cv dark_img)) = 0"
    by linarith
  with bar_count_all_or_nothing [of light_cv dark_img] show ?thesis by linarith
qed

theorem reclaim_gate_witness:
  "stub \<in> snd (detect_android_dark_bars dark_cv dark_img)
   \<and> stub \<in> cnt ` set (fst (detect_android_dark_bars dark_cv dark_img))
   \<and> banner \<notin> snd (detect_android_dark_bars dark_cv dark_img)
   \<and> banner \<notin> cnt ` set (fst (detect_android_dark_bars dark_cv dark_img))
   \<and> stray \<notin> snd (detect_android_dark_bars dark_cv dark_img)"
proof -
  have l: "3 \<le> length (dark_candidates dark_cv dark_img)"
    by (simp add: dark_candidates_value)
  have s: "dark_item_of 400 stub \<in> set (dark_suspect_contours dark_cv dark_img)"
    "dark_item_of 400 banner \<in> set (dark_suspect_contours dark_cv dark_img)"
    "dark_item_of 400 stray \<in> set (dark_suspect_contours dark_cv dark_img)"
    by (simp_all add: dark_suspects_value)
  have r: "[dark_item_of 400 bar_a, dark_item_of 400 bar_b, dark_item_of 400 bar_c]
      = dark_best_row (dark_candidates dark_cv dark_img)"
    by (simp add: dark_candidates_value dark_row_value)
  have m: "(20::real) = np_median (map (\<lambda>c. real_of_int (width c))
      [dark_item_of 400 bar_a, dark_item_of 400 bar_b, dark_item_of 400 bar_c])"
    "(300::real) = np_median (map (\<lambda>c. real_of_int (bottom c))
      [dark_item_of 400 bar_a, dark_item_of 400 bar_b, dark_item_of 400 bar_c])"
    using dark_medians by simp_all
  from reclaim_gate [OF l s(1) r m]
  have a: "stub \<in> snd (detect_android_dark_bars dark_cv dark_img)"
    "stub \<in> cnt ` set (fst (detect_android_dark_bars dark_cv dark_img))"
    by (simp_all add: dark_geometry item_cnt_dark_item_of)
  from reclaim_gate [OF l s(2) r m]
  have b: "banner \<notin> snd (detect_android_dark_bars dark_cv dark_img)"
    "banner \<notin> cnt ` set (fst (detect_android_dark_bars dark_cv dark_img))"
    by (simp_all add: dark_geometry item_cnt_dark_item_of)
  from reclaim_gate [OF l s(3) r m]
  have c: "stray \<notin> snd (detect_android_dark_bars dark_cv dark_img)"
    by (simp add: dark_geometry item_cnt_dark_item_of)
  from a b c show ?thesis by simp
qed

section \<open>Cluster scoring and the service entry point\<close>

lemma np_std_nonneg: "0 \<le> np_std xs"
proof -
  have "0 \<le> sum_list (map (\<lambda>x. (x - np_mean xs)\<^sup>2) xs)"
    by (rule sum_list_nonneg) auto
  then have "0 \<le> np_mean (map (\<lambda>x. (x - np_mean xs)\<^sup>2) xs)"
    by (simp add: np_mean_def)
  then show ?thesis by (simp add: np_std_def)
qed

lemma base_score_pos: "c \<noteq> [] \<Longrightarrow> 0 < base_score c"
proof -
  assume "c \<noteq> []"
  then have "0 < real (length c) ^ 3 * 100" by simp
  moreover have "0 < np_std (map of_int (np_diff c)) + 0.5"
    using np_std_nonneg [of "map of_int (np_diff c)"] by linarith
  ultimately show ?thesis by (simp add: base_score_def Let_def)
qed

text \<open>
  Claim C6.  The score of a cluster is its base score, the cube of its size times 100
  divided by the standard deviation of its spacings plus 0.5, multiplied by 0.1 when the
  bottom line lies below 0.75 of the image height, by 0.8 when it lies in the band from
  0.65 (exclusive) to 0.75 (inclusive), and by 1.2 otherwise.  Hence of two clusters of
  the same size and the same spacing deviation, one whose bottom line is at or above the
  65 percent mark scores strictly more than one whose bottom line is below the 75 percent
  mark.
\<close>

theorem location_scoring:
  "final_score image_height c =
     (real (length c) ^ 3 * 100) / (np_std (map of_int (np_diff c)) + 0.5)
     * (if 0.75 < real_of_int (last c) / of_int image_height then 0.1
        else if 0.65 < real_of_int (last c) / of_int image_height then 0.8
        else 1.2)
   \<and> (c1 \<noteq> [] \<and> length c1 = length c2
        \<and> np_std (map of_int (np_diff c1)) = np_std (map of_int (np_diff c2))
        \<and> real_of_int (last c1) / of_int image_height \<le> 0.65
        \<and> 0.75 < real_of_int (last c2) / of_int image_height
       \<longrightarrow> final_score image_height c2 < final_score image_height c1)"
proof (intro conjI impI)
  show "final_score image_height c =
     (real (length c) ^ 3 * 100) / (np_std (map of_int (np_diff c)) + 0.5)
     * (if 0.75 < real_of_int (last c) / of_int image_height then 0.1
        else if 0.65 < real_of_int (last c) / of_int image_height then 0.8
        else 1.2)"
    by (simp add: final_score_def base_score_def location_multiplier_def Let_def)
next
  assume a: "c1 \<noteq> [] \<and> length c1 = length c2
        \<and> np_std (map of_int (np_diff c1)) = np_std (map of_int (np_diff c2))
        \<and> real_of_int (last c1) / of_int image_height \<le> 0.65
        \<and> 0.75 < real_of_int (last c2) / of_int image_height"
  then have b: "base_score c2 = base_score c1"
    by (simp add: base_score_def Let_def)
  from a have p: "0 < base_score c1" by (simp add: base_score_pos)
  define r1 where "r1 = real_of_int (last c1) / of_int image_height"
  define r2 where "r2 = real_of_int (last c2) / of_int image_height"
  from a have r: "r1 \<le> 0.65" "0.75 < r2" by (simp_all add: r1_def r2_def)
  then have "location_multiplier r1 = 1.2" "location_multiplier r2 = 0.1"
    by (auto simp: location_multiplier_def)
  then have "final_score image_height c1 = base_score c1 * 1.2"
    "final_score image_height c2 = base_score c1 * 0.1"
    unfolding final_score_def Let_def b r1_def r2_def by simp_all
  then show "final_score image_height c2 < final_score image_height c1"
    using p by simp
qed

theorem location_scoring_witness:
  "final_score 1000 [100, 300, 500] = 6480 \<and> final_score 1000 [400, 600, 800] = 540
   \<and> final_score 1000 [300, 500, 700] = 4320
   \<and> final_score 1000 [400, 600, 800] < final_score 1000 [100, 300, 500]"
proof -
  have s: "np_std (map of_int (np_diff [100, 300, 500])) = 0"
    "np_std (map of_int (np_diff [400, 600, 800])) = 0"
    "np_std (map of_int (np_diff [300, 500, 700])) = 0"
    by (simp_all add: np_diff_def np_std_def np_mean_def)
  note t = location_scoring [of 1000 _ "[100, 300, 500]" "[400, 600, 800]"]
  have "final_score 1000 [100, 300, 500] = 6480"
    using t [of "[100, 300, 500]"] s by simp
  moreover have "final_score 1000 [400, 600, 800] = 540"
    using t [of "[400, 600, 800]"] s by simp
  moreover have "final_score 1000 [300, 500, 700] = 4320"
    using t [of "[300, 500, 700]"] s by simp
  moreover have "final_score 1000 [400, 600, 800] < final_score 1000 [100, 300, 500]"
    using t [of "[]"] s by simp
  ultimately show ?thesis by simp
qed

text \<open>
  Claim C2 at a failing input.  \<^verbatim>\<open>calculate_minutes_for_day\<close> answers a missing image
  and an image without grid lines with the error dictionary, and \<^verbatim>\<open>process_day\<close> hands
  that dictionary on when it is given an array; given a file path it answers the same
  two failures with the legacy record for zero minutes, \<open>found = False\<close>, and no error
  field.
\<close>

theorem process_day_path_swallows_error:
  "calculate_minutes_for_day shot_cv shot_fs ''missing.png'' ''Fri''
     = Inr (ErrorDict ''Image could not be loaded'')
   \<and> process_day shot_cv shot_fs ''tmp.png'' (PathStr ''missing.png'') ''Fri''
     = (Inr (LegacyDict \<lparr>day = ''Fri'', legacy_minutes = 0, found = False,
                          scale_min_per_px = 0, max_val_y = 0\<rparr>), shot_fs)
   \<and> calculate_minutes_for_day dark_cv shot_fs ''shot.png'' ''Fri''
     = Inr (ErrorDict ''Failed to detect graph grid lines'')
   \<and> process_day dark_cv shot_fs ''tmp.png'' (PathStr ''shot.png'') ''Fri''
     = (Inr (LegacyDict \<lparr>day = ''Fri'', legacy_minutes = 0, found = False,
                          scale_min_per_px = 0, max_val_y = 0\<rparr>), shot_fs)
   \<and> fst (process_day dark_cv shot_fs ''tmp.png'' (NdArray shot_img) ''Fri'')
     = Inr (ErrorDict ''Failed to detect graph grid lines'')"
proof -
  have m: "calculate_minutes_for_day shot_cv shot_fs ''missing.png'' ''Fri''
     = Inr (ErrorDict ''Image could not be loaded'')"
    by (simp add: calculate_minutes_for_day_def load_image_def shot_fs_def)
  have g: "find_graph_area dark_cv img =
      \<lparr>grid_y_top = None, grid_y_bottom = None, lines = [], avg_delta = 0\<rparr>" for img
    by (simp add: find_graph_area_def pass_candidate_def dark_cv_def strategies_def
        List.map_filter_def)
  have e: "calculate_minutes_for_day dark_cv fs p ''Fri''
     = Inr (ErrorDict ''Failed to detect graph grid lines'')" if "fs p = Some shot_img" for fs p
    using that by (simp add: calculate_minutes_for_day_def load_image_def g)
  have e1: "calculate_minutes_for_day dark_cv shot_fs ''shot.png'' ''Fri''
     = Inr (ErrorDict ''Failed to detect graph grid lines'')"
    by (rule e) (simp add: shot_fs_def)
  have e2: "calculate_minutes_for_day dark_cv (shot_fs(''tmp.png'' \<mapsto> shot_img)) ''tmp.png'' ''Fri''
     = Inr (ErrorDict ''Failed to detect graph grid lines'')"
    by (rule e) simp
  show ?thesis
    by (simp add: m e1 e2 process_day_def get_target_day_def get_minutes_def get_full_map_def
        get_scale_factor_def get_raw_max_value_def)
qed

end
